theory Spec2Isabelle
  imports Complex_Main "HOL-Library.Sublist"
begin

section \<open>Errors and JavaScript idioms\<close>

text \<open>
  A JavaScript \<^verbatim>\<open>number\<close> that takes part in the spending arithmetic is a double: a finite
  value, given by the real number it denotes, or \<^verbatim>\<open>NaN\<close>, or one of the two infinities.
  \<open>gt\<close> and \<open>lte\<close> are the operators \<^verbatim>\<open>>\<close> and \<^verbatim>\<open><=\<close>: every comparison with \<^verbatim>\<open>NaN\<close> is
  false. \<open>add rnd\<close> is the operator \<^verbatim>\<open>+\<close> on numbers, where \<open>rnd\<close> rounds the exact sum of
  two finite values to the double that the hardware returns (an infinity on overflow); the
  rounding is not code of this repository, so it is a parameter.
\<close>

datatype number = Num real | NaN | Infinity | NegInfinity

definition gt :: "number \<Rightarrow> number \<Rightarrow> bool" where
  "gt x y =
     (case x of
        Num a \<Rightarrow> (case y of Num b \<Rightarrow> a > b | NegInfinity \<Rightarrow> True | _ \<Rightarrow> False)
      | Infinity \<Rightarrow> (case y of Num b \<Rightarrow> True | NegInfinity \<Rightarrow> True | _ \<Rightarrow> False)
      | _ \<Rightarrow> False)"

definition lte :: "number \<Rightarrow> number \<Rightarrow> bool" where
  "lte x y =
     (case x of
        Num a \<Rightarrow> (case y of Num b \<Rightarrow> a \<le> b | Infinity \<Rightarrow> True | _ \<Rightarrow> False)
      | NegInfinity \<Rightarrow> (case y of NaN \<Rightarrow> False | _ \<Rightarrow> True)
      | Infinity \<Rightarrow> (case y of Infinity \<Rightarrow> True | _ \<Rightarrow> False)
      | NaN \<Rightarrow> False)"

definition add :: "(real \<Rightarrow> number) \<Rightarrow> number \<Rightarrow> number \<Rightarrow> number" where
  "add rnd x y =
     (case x of
        Num a \<Rightarrow> (case y of Num b \<Rightarrow> rnd (a + b) | other \<Rightarrow> other)
      | NaN \<Rightarrow> NaN
      | Infinity \<Rightarrow> (case y of NaN \<Rightarrow> NaN | NegInfinity \<Rightarrow> NaN | _ \<Rightarrow> Infinity)
      | NegInfinity \<Rightarrow> (case y of NaN \<Rightarrow> NaN | Infinity \<Rightarrow> NaN | _ \<Rightarrow> NegInfinity))"

text \<open>
  \<^verbatim>\<open>JSON.stringify\<close> writes a finite number as a numeral that \<^verbatim>\<open>JSON.parse\<close> reads back to the
  same double, and writes \<^verbatim>\<open>NaN\<close> and the infinities as \<^verbatim>\<open>null\<close>.
\<close>

definition toJSON :: "number \<Rightarrow> real option" where
  "toJSON x = (case x of Num a \<Rightarrow> Some a | _ \<Rightarrow> None)"

text \<open>
  A value that the RPC node reports, as \<^verbatim>\<open>JSON.parse\<close> returns it, and its truthiness: the
  test of \<^verbatim>\<open>if (value)\<close>.
\<close>

datatype json =
    JNull
  | JBool bool
  | JNumber real
  | JString string
  | JArray "json list"
  | JObject "(string \<times> json) list"


text \<open>
  Every \<^verbatim>\<open>throw new Error(...)\<close> of the sources is a constructor below, with the values its
  message is built from; an error raised by a library, the file system or the network is
  \<open>External\<close> with its message.
\<close>

datatype error =
    AgentNotFound string
  | SpendingLimitExceeded number number
  | WouldExceedSpendingLimit number number
  | WalletAlreadyRegistered string string
  | ProgramNotAllowlisted string
  | SimulationFailed json
  | KoraNotConfigured
  | PassphraseRequired
  | AuthenticationFailed
  | External string

text \<open>The operator \<^verbatim>\<open>x ?? d\<close>: \<open>d\<close> when \<open>x\<close> is \<^verbatim>\<open>undefined\<close> or \<^verbatim>\<open>null\<close>.\<close>

definition nullish :: "'a option \<Rightarrow> 'a \<Rightarrow> 'a" where
  "nullish x d = (case x of None \<Rightarrow> d | Some v \<Rightarrow> v)"

text \<open>\<^verbatim>\<open>Array.prototype.findIndex\<close>: the first index whose element satisfies \<open>p\<close>, or \<open>-1\<close>.\<close>

fun findIndex :: "('a \<Rightarrow> bool) \<Rightarrow> 'a list \<Rightarrow> int" where
  "findIndex p [] = -1"
| "findIndex p (x # xs) =
     (if p x then 0 else (let k = findIndex p xs in if k = -1 then -1 else k + 1))"

section \<open>Agent registry (src/orchestrator/Orchestrator.ts)\<close>

record SplBalance =
  mint :: string
  amount :: string
  decimals :: real

text \<open>
  \<^verbatim>\<open>AgentRecord\<close>; the field \<^verbatim>\<open>id\<close> is \<open>id_of\<close> here. An optional field is an option, \<open>None\<close>
  when it is absent or \<^verbatim>\<open>null\<close>. The type parameter is the type of the two spending fields:
  \<open>number\<close> for a record in memory, \<open>real\<close> for a record in the store file, whose JSON text
  has finite numerals and \<^verbatim>\<open>null\<close> only.
\<close>

record 'n AgentRecord =
  id_of :: string
  walletName :: string
  walletAddress :: string
  strategy :: string
  createdAt :: string
  splBalances :: "SplBalance list option"
  solSpent :: "'n option"
  spendingLimit :: "'n option"
  lastUpdated :: "string option"

text \<open>\<^verbatim>\<open>JSON.parse\<close> and \<^verbatim>\<open>JSON.stringify\<close> on one record.\<close>

definition parse :: "real AgentRecord \<Rightarrow> number AgentRecord" where
  "parse filed =
     \<lparr>id_of = id_of filed,
      walletName = walletName filed,
      walletAddress = walletAddress filed,
      strategy = strategy filed,
      createdAt = createdAt filed,
      splBalances = splBalances filed,
      solSpent = map_option Num (solSpent filed),
      spendingLimit = map_option Num (spendingLimit filed),
      lastUpdated = lastUpdated filed\<rparr>"

definition stringify :: "number AgentRecord \<Rightarrow> real AgentRecord" where
  "stringify record =
     \<lparr>id_of = id_of record,
      walletName = walletName record,
      walletAddress = walletAddress record,
      strategy = strategy record,
      createdAt = createdAt record,
      splBalances = splBalances record,
      solSpent = Option.bind (solSpent record) toJSON,
      spendingLimit = Option.bind (spendingLimit record) toJSON,
      lastUpdated = lastUpdated record\<rparr>"

text \<open>
  The store file is represented by its content, the records of its JSON text, or by the
  error of \<^verbatim>\<open>fs.readFile\<close>/\<^verbatim>\<open>JSON.parse\<close> when it cannot be read. \<open>readAgents\<close> catches every
  error and returns the empty array; \<open>writeAgents\<close> replaces the whole file (the write itself
  is taken to succeed).
\<close>

type_synonym agentStore = "error + real AgentRecord list"

definition readAgents :: "agentStore \<Rightarrow> number AgentRecord list" where
  "readAgents store = (case store of Inl e \<Rightarrow> [] | Inr records \<Rightarrow> map parse records)"

definition writeAgents :: "number AgentRecord list \<Rightarrow> agentStore" where
  "writeAgents records = Inr (map stringify records)"

definition getAgent :: "agentStore \<Rightarrow> string \<Rightarrow> number AgentRecord option" where
  "getAgent store i = find (\<lambda>agent. id_of agent = i) (readAgents store)"

definition updateAgent ::
  "agentStore \<Rightarrow> number AgentRecord \<Rightarrow> (error + unit) \<times> agentStore" where
  "updateAgent store record =
     (let all = readAgents store;
          index = findIndex (\<lambda>a. id_of a = id_of record) all
      in if index = -1 then (Inl (AgentNotFound (id_of record)), store)
         else (Inr (), writeAgents (all[nat index := record])))"

text \<open>
  \<open>trackSpending rnd dflt now store i sol\<close>: \<open>rnd\<close> is the rounding of sums, \<open>dflt\<close> is
  \<^verbatim>\<open>DEFAULT_SPENDING_LIMIT\<close> (what \<^verbatim>\<open>parseFloat\<close> made of the environment variable), \<open>now\<close> the
  timestamp \<^verbatim>\<open>new Date().toISOString()\<close>. The result pairs what the call returns or throws
  with the store it leaves.
\<close>

definition trackSpending ::
  "(real \<Rightarrow> number) \<Rightarrow> number \<Rightarrow> string \<Rightarrow> agentStore \<Rightarrow> string \<Rightarrow> number
     \<Rightarrow> (error + unit) \<times> agentStore" where
  "trackSpending rnd dflt now store i sol =
     (case getAgent store i of
        None \<Rightarrow> (Inl (AgentNotFound i), store)
      | Some record \<Rightarrow>
          (let spent = add rnd (nullish (solSpent record) (Num 0)) sol;
               limit = nullish (spendingLimit record) dflt
           in if gt spent limit then (Inl (SpendingLimitExceeded spent limit), store)
              else updateAgent store
                     (record\<lparr>solSpent := Some spent, lastUpdated := Some now\<rparr>)))"

definition checkSpendingLimit ::
  "(real \<Rightarrow> number) \<Rightarrow> number \<Rightarrow> agentStore \<Rightarrow> string \<Rightarrow> number \<Rightarrow> error + unit" where
  "checkSpendingLimit rnd dflt store i sol =
     (case getAgent store i of
        None \<Rightarrow> Inl (AgentNotFound i)
      | Some record \<Rightarrow>
          (let spent = add rnd (nullish (solSpent record) (Num 0)) sol;
               limit = nullish (spendingLimit record) dflt
           in if gt spent limit then Inl (WouldExceedSpendingLimit spent limit)
              else Inr ()))"

text \<open>
  The spending invariant \<^verbatim>\<open>solSpent <= spendingLimit\<close> of a record, on the values the code
  reads from it.
\<close>

definition withinLimit :: "number \<Rightarrow> number AgentRecord \<Rightarrow> bool" where
  "withinLimit dflt record \<longleftrightarrow>
     lte (nullish (solSpent record) (Num 0)) (nullish (spendingLimit record) dflt)"

text \<open>A sequence of \<open>trackSpending\<close> calls on one agent, each with its timestamp and amount.\<close>

fun trackAll ::
  "(real \<Rightarrow> number) \<Rightarrow> number \<Rightarrow> agentStore \<Rightarrow> string \<Rightarrow> (string \<times> number) list
     \<Rightarrow> agentStore" where
  "trackAll rnd dflt store i [] = store"
| "trackAll rnd dflt store i ((now, sol) # calls) =
     trackAll rnd dflt (snd (trackSpending rnd dflt now store i sol)) i calls"


section \<open>Key custody (src/wallet/KeyManager.ts, src/wallet/types.ts)\<close>

type_synonym buffer = "nat list"

text \<open>A \<^verbatim>\<open>Keypair\<close> of the network library: the public key and the secret key bytes.\<close>

record Keypair =
  publicKey :: buffer
  secretKey :: buffer

text \<open>
  \<^verbatim>\<open>StoredKeypair\<close>. Its fields \<^verbatim>\<open>publicKey\<close> and \<^verbatim>\<open>createdAt\<close> carry a prime here, since the
  selectors of \<open>Keypair\<close> and \<open>AgentRecord\<close> have those names.
\<close>

record StoredKeypair =
  name :: string
  publicKey' :: string
  cipherText :: string
  iv :: string
  salt :: string
  tag :: string
  createdAt' :: string

text \<open>
  The primitives of \<^verbatim>\<open>node:crypto\<close>, \<^verbatim>\<open>node:path\<close>, \<^verbatim>\<open>Buffer\<close>, the network library and the
  language are not code of this repository; the model takes them as parameters.
  \<^item> \<open>scryptSync passphrase salt keylen\<close> derives the key;
  \<^item> \<open>cipher key iv plaintext\<close> is \<^verbatim>\<open>createCipheriv("aes-256-gcm", key, iv)\<close> followed by
    \<^verbatim>\<open>update\<close>, \<^verbatim>\<open>final\<close> and \<^verbatim>\<open>getAuthTag\<close>: the ciphertext and the tag;
  \<^item> \<open>decipher key iv tag ciphertext\<close> is \<^verbatim>\<open>createDecipheriv\<close>, \<^verbatim>\<open>setAuthTag\<close>, \<^verbatim>\<open>update\<close> and
    \<^verbatim>\<open>final\<close>: the plaintext, or \<open>None\<close> where \<^verbatim>\<open>final\<close> throws (the tag does not verify);
  \<^item> \<open>toBase64\<close>, \<open>fromBase64\<close> are \<^verbatim>\<open>buf.toString("base64")\<close> and \<^verbatim>\<open>Buffer.from(s, "base64")\<close>;
  \<^item> \<open>toBase58\<close> prints a public key; \<open>fromSecretKey\<close> is \<^verbatim>\<open>Keypair.fromSecretKey\<close>;
  \<^item> \<open>newPublicKey\<close> is \<^verbatim>\<open>new PublicKey(text)\<close>: the key, or the error the constructor throws;
  \<^item> \<open>pathJoin\<close> is \<^verbatim>\<open>path.join\<close> of \<^verbatim>\<open>node:path\<close>, which also normalises the joined path;
  \<^item> \<open>parseFloat\<close> is the JavaScript function of that name, on the amount texts of the RPC;
  \<^item> \<open>toBaseUnits x\<close> is \<^verbatim>\<open>BigInt(Math.round(x * 1e6))\<close>: the integer, or the error that
    \<^verbatim>\<open>BigInt\<close> throws where the rounded product is not finite.
\<close>

record primitives =
  scryptSync :: "string \<Rightarrow> buffer \<Rightarrow> nat \<Rightarrow> buffer"
  cipher :: "buffer \<Rightarrow> buffer \<Rightarrow> buffer \<Rightarrow> buffer \<times> buffer"
  decipher :: "buffer \<Rightarrow> buffer \<Rightarrow> buffer \<Rightarrow> buffer \<Rightarrow> buffer option"
  toBase64 :: "buffer \<Rightarrow> string"
  fromBase64 :: "string \<Rightarrow> buffer"
  toBase58 :: "buffer \<Rightarrow> string"
  fromSecretKey :: "buffer \<Rightarrow> error + Keypair"
  newPublicKey :: "string \<Rightarrow> error + buffer"
  pathJoin :: "string \<Rightarrow> string \<Rightarrow> string"
  parseFloat :: "string \<Rightarrow> real"
  toBaseUnits :: "real \<Rightarrow> error + int"

definition KEY_LENGTH :: nat where
  "KEY_LENGTH = 32"

text \<open>The constructor: a \<open>KeyManager\<close> is its passphrase, and an empty one is refused.\<close>

definition KeyManager :: "string \<Rightarrow> error + string" where
  "KeyManager passphrase = (if passphrase = [] then Inl PassphraseRequired else Inr passphrase)"

definition deriveKey :: "primitives \<Rightarrow> string \<Rightarrow> buffer \<Rightarrow> buffer" where
  "deriveKey P passphrase saltBytes = scryptSync P passphrase saltBytes KEY_LENGTH"

text \<open>
  \<open>encryptKeypair P passphrase ivBytes saltBytes now nm keypair\<close>: \<open>ivBytes\<close> and \<open>saltBytes\<close>
  are what the two \<^verbatim>\<open>randomBytes\<close> calls return, \<open>now\<close> is the timestamp.
\<close>

definition encryptKeypair ::
  "primitives \<Rightarrow> string \<Rightarrow> buffer \<Rightarrow> buffer \<Rightarrow> string \<Rightarrow> string \<Rightarrow> Keypair \<Rightarrow> StoredKeypair" where
  "encryptKeypair P passphrase ivBytes saltBytes now nm keypair =
     (let key = deriveKey P passphrase saltBytes;
          (cipherBytes, tagBytes) = cipher P key ivBytes (secretKey keypair)
      in \<lparr>name = nm,
          publicKey' = toBase58 P (publicKey keypair),
          cipherText = toBase64 P cipherBytes,
          iv = toBase64 P ivBytes,
          salt = toBase64 P saltBytes,
          tag = toBase64 P tagBytes,
          createdAt' = now\<rparr>)"

definition decryptKeypair :: "primitives \<Rightarrow> string \<Rightarrow> StoredKeypair \<Rightarrow> error + Keypair" where
  "decryptKeypair P passphrase stored =
     (let ivBytes = fromBase64 P (iv stored);
          saltBytes = fromBase64 P (salt stored);
          tagBytes = fromBase64 P (tag stored);
          key = deriveKey P passphrase saltBytes
      in case decipher P key ivBytes tagBytes (fromBase64 P (cipherText stored)) of
           None \<Rightarrow> Inl AuthenticationFailed
         | Some secretBytes \<Rightarrow> fromSecretKey P secretBytes)"

text \<open>
  The key files: \<open>files\<close> maps a file path, as \<^verbatim>\<open>path.join\<close> returns it, to the record the
  file holds. \<open>saveKeypair\<close> writes the file \<^verbatim>\<open>path.join(dir, `${name}.json`)\<close> with
  \<^verbatim>\<open>fs.writeFile\<close>, whether or not it exists. \<open>refused\<close> is the error that \<^verbatim>\<open>fs.mkdir\<close> or
  \<^verbatim>\<open>fs.writeFile\<close> throws for that path, if any (a directory of the path that does not
  exist, a path that is a directory, a permission); the file is then as it was.
  \<open>loadKeypair\<close> fails where \<^verbatim>\<open>fs.readFile\<close> finds no file.
\<close>

type_synonym keystore = "string \<rightharpoonup> StoredKeypair"

definition saveKeypair ::
  "primitives \<Rightarrow> string \<Rightarrow> buffer \<Rightarrow> buffer \<Rightarrow> string \<Rightarrow> error option \<Rightarrow> keystore \<Rightarrow> string
     \<Rightarrow> string \<Rightarrow> Keypair \<Rightarrow> (error + StoredKeypair) \<times> keystore" where
  "saveKeypair P passphrase ivBytes saltBytes now refused files dir nm keypair =
     (let stored = encryptKeypair P passphrase ivBytes saltBytes now nm keypair;
          filePath = pathJoin P dir (nm @ ''.json'')
      in case refused of
           Some e \<Rightarrow> (Inl e, files)
         | None \<Rightarrow> (Inr stored, files(filePath \<mapsto> stored)))"

definition loadKeypair ::
  "primitives \<Rightarrow> string \<Rightarrow> keystore \<Rightarrow> string \<Rightarrow> string \<Rightarrow> error + Keypair" where
  "loadKeypair P passphrase files dir nm =
     (let filePath = pathJoin P dir (nm @ ''.json'')
      in case files filePath of
           None \<Rightarrow> Inl (External (''ENOENT: no such file or directory: '' @ filePath))
         | Some stored \<Rightarrow> decryptKeypair P passphrase stored)"


section \<open>Program allowlist (src/security/ProgramAllowlist.ts)\<close>

text \<open>
  An instruction is represented by the base-58 text of its \<^verbatim>\<open>programId\<close>; the allowlist by the
  array its \<^verbatim>\<open>Set\<close> is built from, so that \<^verbatim>\<open>size\<close> is \<open>card (set allowedPrograms)\<close>.
\<close>

record Instruction =
  programId :: string

record Transaction =
  instructions :: "Instruction list"

definition isAllowed :: "string list \<Rightarrow> string \<Rightarrow> bool" where
  "isAllowed allowedPrograms program =
     (if card (set allowedPrograms) = 0 then True else program \<in> set allowedPrograms)"

fun validateInstructions :: "string list \<Rightarrow> Instruction list \<Rightarrow> error + unit" where
  "validateInstructions allowedPrograms [] = Inr ()"
| "validateInstructions allowedPrograms (instruction # rest) =
     (if \<not> isAllowed allowedPrograms (programId instruction)
      then Inl (ProgramNotAllowlisted (programId instruction))
      else validateInstructions allowedPrograms rest)"

definition validateTransaction :: "string list \<Rightarrow> Transaction \<Rightarrow> error + unit" where
  "validateTransaction allowedPrograms tx =
     (if card (set allowedPrograms) = 0 then Inr ()
      else validateInstructions allowedPrograms (instructions tx))"

section \<open>Wallet service (src/wallet/WalletService.ts) and relay (src/kora/KoraClient.ts)\<close>

text \<open>
  \<open>createWallet\<close>: \<open>keypair\<close> is what \<^verbatim>\<open>Keypair.generate()\<close> returns, \<open>dir\<close> the directory of
  the service.
\<close>

definition createWallet ::
  "primitives \<Rightarrow> string \<Rightarrow> Keypair \<Rightarrow> buffer \<Rightarrow> buffer \<Rightarrow> string \<Rightarrow> error option \<Rightarrow> keystore
     \<Rightarrow> string \<Rightarrow> string \<Rightarrow> (error + Keypair) \<times> keystore" where
  "createWallet P passphrase keypair ivBytes saltBytes now refused files dir nm =
     (case saveKeypair P passphrase ivBytes saltBytes now refused files dir nm keypair of
        (Inl e, written) \<Rightarrow> (Inl e, written)
      | (Inr stored, written) \<Rightarrow> (Inr keypair, written))"

definition loadWallet ::
  "primitives \<Rightarrow> string \<Rightarrow> keystore \<Rightarrow> string \<Rightarrow> string \<Rightarrow> error + Keypair" where
  "loadWallet P passphrase files dir nm = loadKeypair P passphrase files dir nm"



datatype step =
    ValidateTransaction
  | SimulateTransaction
  | KoraSendRawTransaction
  | KoraConfirmTransaction
  | SendRawTransaction
  | ConfirmTransaction





section \<open>The process state (src/orchestrator/Orchestrator.ts)\<close>

text \<open>
  A runner object is one of the three classes; the two agent classes have the mutable field
  \<^verbatim>\<open>running\<close> and the method \<^verbatim>\<open>stop\<close>, \<open>SimpleAgentRunner\<close> has neither. Runner objects
  live in \<open>objects\<close> and are referred to by their index there, since the map of running agents
  and the loop share one object.
\<close>

datatype runner = SimpleAgentRunner | TradingAgent bool | LiquidityAgent bool

definition running :: "runner \<Rightarrow> bool" where
  "running r = (case r of SimpleAgentRunner \<Rightarrow> False | TradingAgent b \<Rightarrow> b | LiquidityAgent b \<Rightarrow> b)"

definition hasStop :: "runner \<Rightarrow> bool" where
  "hasStop r = (case r of SimpleAgentRunner \<Rightarrow> False | TradingAgent b \<Rightarrow> True | LiquidityAgent b \<Rightarrow> True)"

definition setRunning :: "bool \<Rightarrow> runner \<Rightarrow> runner" where
  "setRunning v r =
     (case r of SimpleAgentRunner \<Rightarrow> SimpleAgentRunner
      | TradingAgent b \<Rightarrow> TradingAgent v
      | LiquidityAgent b \<Rightarrow> LiquidityAgent v)"

definition stop :: "runner \<Rightarrow> runner" where
  "stop r = setRunning False r"

record RunningAgent =
  ra_id :: string
  runner :: nat

datatype event =
    agent_spawned string string string
  | agent_started string string
  | agent_stopped string
  | agent_completed string "string list"

record world =
  agentStore :: agentStore
  keys :: keystore
  runningAgents :: "string \<rightharpoonup> RunningAgent"
  objects :: "runner list"
  emitted :: "event list"
  console :: "(string \<times> error) list"

record settings =
  prims :: primitives
  KEYSTORE_PASSPHRASE :: string
  KEYSTORE_DIR :: string
  DEFAULT_SPENDING_LIMIT :: number

text \<open>
  What one \<open>spawnAgent\<close> or \<open>promoteWallet\<close> call draws: \<^verbatim>\<open>randomUUID()\<close>, \<^verbatim>\<open>Date.now()\<close> in
  decimal, \<^verbatim>\<open>new Date().toISOString()\<close>, \<^verbatim>\<open>Keypair.generate()\<close>, the two \<^verbatim>\<open>randomBytes\<close>, and
  the error the file system raises when the key file is written, if any. The record that
  \<open>spawnAgent\<close> and \<open>promoteWallet\<close> return is the one in memory; the store receives its
  JSON text.
\<close>

record drawn =
  randomUUID :: string
  dateNow :: string
  isoNow :: string
  generated :: Keypair
  randomIv :: buffer
  randomSalt :: buffer
  writeRefused :: "error option"

definition spawnAgent ::
  "settings \<Rightarrow> drawn \<Rightarrow> world \<Rightarrow> string \<Rightarrow> string option \<Rightarrow> number option
     \<Rightarrow> (error + number AgentRecord) \<times> world" where
  "spawnAgent S d W strat wName limit =
     (let nm = nullish wName (''agent-'' @ dateNow d)
      in case createWallet (prims S) (KEYSTORE_PASSPHRASE S) (generated d) (randomIv d)
                (randomSalt d) (isoNow d) (writeRefused d) (keys W) (KEYSTORE_DIR S) nm of
           (Inl e, files) \<Rightarrow> (Inl e, W\<lparr>keys := files\<rparr>)
         | (Inr wallet, files) \<Rightarrow>
             (let record = \<lparr>id_of = randomUUID d,
                            walletName = nm,
                            walletAddress = toBase58 (prims S) (publicKey wallet),
                            strategy = strat,
                            createdAt = isoNow d,
                            splBalances = None,
                            solSpent = Some (Num 0),
                            spendingLimit = Some (nullish limit (DEFAULT_SPENDING_LIMIT S)),
                            lastUpdated = Some (isoNow d)\<rparr>;
                  all = readAgents (agentStore W)
              in (Inr record,
                  W\<lparr>keys := files,
                    agentStore := writeAgents (all @ [record]),
                    emitted := emitted W @
                      [agent_spawned (id_of record) (strategy record) (walletAddress record)]\<rparr>)))"

definition promoteWallet ::
  "settings \<Rightarrow> drawn \<Rightarrow> world \<Rightarrow> string \<Rightarrow> string \<Rightarrow> number option
     \<Rightarrow> (error + number AgentRecord) \<times> world" where
  "promoteWallet S d W wName strat limit =
     (let all = readAgents (agentStore W)
      in case find (\<lambda>a. walletName a = wName) all of
           Some existing \<Rightarrow> (Inl (WalletAlreadyRegistered wName (id_of existing)), W)
         | None \<Rightarrow>
             (case loadWallet (prims S) (KEYSTORE_PASSPHRASE S) (keys W) (KEYSTORE_DIR S)
                     wName of
                Inl e \<Rightarrow> (Inl e, W)
              | Inr wallet \<Rightarrow>
                  (let record = \<lparr>id_of = randomUUID d,
                                 walletName = wName,
                                 walletAddress = toBase58 (prims S) (publicKey wallet),
                                 strategy = strat,
                                 createdAt = isoNow d,
                                 splBalances = None,
                                 solSpent = Some (Num 0),
                                 spendingLimit = Some (nullish limit (DEFAULT_SPENDING_LIMIT S)),
                                 lastUpdated = Some (isoNow d)\<rparr>
                   in (Inr record,
                       W\<lparr>agentStore := writeAgents (all @ [record]),
                         emitted := emitted W @
                           [agent_spawned (id_of record) (strategy record)
                              (walletAddress record)]\<rparr>))))"

text \<open>
  \<open>stopAgent W i now\<close>. The guard \<^verbatim>\<open>"stop" in running.runner\<close> is \<open>hasStop\<close>; the entry is
  deleted and the event emitted whether or not the runner could be stopped.
\<close>

definition stopAgent :: "world \<Rightarrow> string \<Rightarrow> string \<Rightarrow> (error + unit) \<times> world" where
  "stopAgent W i now =
     (let W1 = (case runningAgents W i of
                  None \<Rightarrow> W
                | Some entry \<Rightarrow>
                    (let objs = (if hasStop (objects W ! runner entry)
                                 then (objects W)[runner entry := stop (objects W ! runner entry)]
                                 else objects W)
                     in W\<lparr>objects := objs,
                          runningAgents := (runningAgents W)(i := None),
                          emitted := emitted W @ [agent_stopped i]\<rparr>))
      in case getAgent (agentStore W1) i of
           None \<Rightarrow> (Inr (), W1)
         | Some record \<Rightarrow>
             (let (res, store) = updateAgent (agentStore W1) (record\<lparr>lastUpdated := Some now\<rparr>)
              in (res, W1\<lparr>agentStore := store\<rparr>)))"

definition isRunning :: "world \<Rightarrow> string \<Rightarrow> bool" where
  "isRunning W i \<longleftrightarrow> runningAgents W i \<noteq> None"

section \<open>The loops (src/agents)\<close>

text \<open>
  The numbers of a loop, its configuration, the value of \<^verbatim>\<open>Math.random()\<close> and the mock
  price, are finite and are given by the real numbers they denote.
  A loop suspends at every \<^verbatim>\<open>await\<close>, and other calls of the same process run meanwhile.
  For iteration \<open>i\<close> of a loop, \<open>env i\<close> gives what the iteration meets: the value of
  \<^verbatim>\<open>Math.random()\<close>, the result of each token-service call, and the \<open>stopAgent\<close> calls (agent
  id and timestamp) that run while the iteration waits for the network (\<open>duringAction\<close>) and
  while it sleeps (\<open>duringSleep\<close>).
\<close>

record iteration =
  roll :: real
  transferSol :: "error + string"
  mintSpl :: "error + string"
  getSplBalances :: "error + SplBalance list"
  transferSpl :: "error + string"
  duringAction :: "(string \<times> string) list"
  duringSleep :: "(string \<times> string) list"

definition meanwhile :: "(string \<times> string) list \<Rightarrow> world \<Rightarrow> world" where
  "meanwhile calls W = fold (\<lambda>(i, now) V. snd (stopAgent V i now)) calls W"

record loopConfig =
  iterations :: real
  intervalMs :: real

record AgentLoopOptions = loopConfig +
  to :: buffer
  sol :: real
  holdProbability :: real

record TradingConfig = loopConfig +
  targetMint :: string
  buyThreshold :: real
  sellThreshold :: real
  tradeAmount :: real

record LiquidityConfig = loopConfig +
  poolMint :: string
  minBalance :: real
  maxBalance :: real
  rebalanceAmount :: real

text \<open>
  What the action of one iteration came to: \<open>Held\<close> when no network call was made,
  \<open>Thrown\<close> when an error was thrown before any network call, \<open>Skipped\<close> when a call was made
  but nothing was submitted, \<open>Failed\<close> when an error was thrown after a call was awaited,
  \<open>Submitted\<close> with the identifier otherwise. \<open>awaited\<close> says that the iteration waited for
  the network, so that other calls of the process could run meanwhile.
\<close>

datatype attempt = Held | Thrown error | Skipped | Failed error | Submitted string

definition outcome :: "error + string \<Rightarrow> attempt" where
  "outcome res = (case res of Inl e \<Rightarrow> Failed e | Inr signature \<Rightarrow> Submitted signature)"

definition awaited :: "attempt \<Rightarrow> bool" where
  "awaited a = (case a of Held \<Rightarrow> False | Thrown e \<Rightarrow> False | _ \<Rightarrow> True)"

definition push :: "attempt \<Rightarrow> string list \<Rightarrow> string list" where
  "push a signatures = (case a of Submitted signature \<Rightarrow> signatures @ [signature] | _ \<Rightarrow> signatures)"

text \<open>The \<^verbatim>\<open>catch\<close> blocks of the two agent classes: \<^verbatim>\<open>console.error(label, error)\<close>.\<close>

definition logFailure :: "string \<Rightarrow> attempt \<Rightarrow> world \<Rightarrow> world" where
  "logFailure label a W =
     (case a of
        Failed e \<Rightarrow> W\<lparr>console := console W @ [(label, e)]\<rparr>
      | Thrown e \<Rightarrow> W\<lparr>console := console W @ [(label, e)]\<rparr>
      | _ \<Rightarrow> W)"

subsection \<open>SimpleAgentRunner.runSolTransferLoop\<close>

function runSolTransferLoop ::
  "(nat \<Rightarrow> iteration) \<Rightarrow> AgentLoopOptions \<Rightarrow> nat \<Rightarrow> string list \<Rightarrow> world
     \<Rightarrow> (error + string list) \<times> world" where
  "runSolTransferLoop env options i signatures W =
     (if real i < iterations options then
        (if roll (env i) \<ge> holdProbability options then
           (case transferSol (env i) of
              Inl e \<Rightarrow> (Inl e, meanwhile (duringAction (env i)) W)
            | Inr signature \<Rightarrow>
                runSolTransferLoop env options (i + 1) (signatures @ [signature])
                  (if intervalMs options > 0 \<and> real i < iterations options - 1
                   then meanwhile (duringSleep (env i)) (meanwhile (duringAction (env i)) W)
                   else meanwhile (duringAction (env i)) W))
         else
           runSolTransferLoop env options (i + 1) signatures
             (if intervalMs options > 0 \<and> real i < iterations options - 1
              then meanwhile (duringSleep (env i)) W
              else W))
      else (Inr signatures, W))"
  by pat_completeness auto
termination
  by (relation "measure (\<lambda>(env, options, i, signatures, W). nat \<lceil>iterations options\<rceil> - i)")
     (auto, linarith+)

declare runSolTransferLoop.simps [simp del]

text \<open>
  The pacing at the end of an iteration of the two agent classes: the sleep is taken only
  while \<^verbatim>\<open>this.running\<close> still holds.
\<close>

definition pacing :: "'a loopConfig_scheme \<Rightarrow> nat \<Rightarrow> iteration \<Rightarrow> nat \<Rightarrow> world \<Rightarrow> world" where
  "pacing config this it i W =
     (if intervalMs config > 0 \<and> real i < iterations config - 1 \<and> running (objects W ! this)
      then meanwhile (duringSleep it) W
      else W)"

subsection \<open>TradingAgent\<close>

datatype marketAction = BUY | SELL | HOLD

text \<open>\<open>evaluateMarket\<close> also returns a reason text, which nothing reads.\<close>

definition evaluateMarket :: "real \<Rightarrow> TradingConfig \<Rightarrow> marketAction" where
  "evaluateMarket price config =
     (if price < buyThreshold config then BUY
      else if price > sellThreshold config then SELL
      else HOLD)"

text \<open>
  The address that both agent classes build with \<^verbatim>\<open>new PublicKey(...)\<close> inside their
  \<^verbatim>\<open>try\<close> block before they call \<^verbatim>\<open>transferSpl\<close>: 43 characters. Where the constructor throws,
  the \<^verbatim>\<open>catch\<close> of the block receives its error and \<^verbatim>\<open>transferSpl\<close> is not called.
\<close>

definition burnAddress :: string where
  "burnAddress = ''1111111111111111111111111111111111111111111''"

text \<open>
  The two \<^verbatim>\<open>try\<close> blocks of \<open>TradingAgent.run\<close>. The amount is converted to base units
  while the arguments of \<^verbatim>\<open>mintSpl\<close> and \<^verbatim>\<open>transferSpl\<close> are evaluated, after the burn address
  is built and before the call.
\<close>

definition tradeAttempt :: "primitives \<Rightarrow> iteration \<Rightarrow> TradingConfig \<Rightarrow> real \<Rightarrow> attempt" where
  "tradeAttempt P it config price =
     (case evaluateMarket price config of
        BUY \<Rightarrow>
          (case toBaseUnits P (tradeAmount config) of
             Inl e \<Rightarrow> Thrown e
           | Inr units \<Rightarrow> outcome (mintSpl it))
      | SELL \<Rightarrow>
          (case getSplBalances it of
             Inl e \<Rightarrow> Failed e
           | Inr balances \<Rightarrow>
               (case find (\<lambda>b. mint b = targetMint config) balances of
                  None \<Rightarrow> Skipped
                | Some balance \<Rightarrow>
                    if parseFloat P (amount balance) > 0 then
                      (case newPublicKey P burnAddress of
                         Inl e \<Rightarrow> Failed e
                       | Inr burn \<Rightarrow>
                           (case toBaseUnits P
                                   (min (parseFloat P (amount balance)) (tradeAmount config)) of
                              Inl e \<Rightarrow> Failed e
                            | Inr units \<Rightarrow> outcome (transferSpl it)))
                    else Skipped))
      | HOLD \<Rightarrow> Held)"

function tradingLoop ::
  "primitives \<Rightarrow> (nat \<Rightarrow> iteration) \<Rightarrow> TradingConfig \<Rightarrow> nat \<Rightarrow> nat \<Rightarrow> real
     \<Rightarrow> string list \<Rightarrow> world \<Rightarrow> string list \<times> world" where
  "tradingLoop P env config this i mockPrice signatures W =
     (if real i < iterations config \<and> running (objects W ! this) then
        (let price = mockPrice * (0.95 + roll (env i) * 0.1);
             a = tradeAttempt P (env i) config price;
             W1 = logFailure ''Trade execution failed:'' a
                    (if awaited a then meanwhile (duringAction (env i)) W else W);
             W2 = pacing config this (env i) i W1
         in tradingLoop P env config this (i + 1) price (push a signatures) W2)
      else (signatures, W))"
  by pat_completeness auto
termination
  by (relation "measure (\<lambda>(P, env, config, this, i, mockPrice, signatures, W).
                  nat \<lceil>iterations config\<rceil> - i)")
     (auto, linarith+)

declare tradingLoop.simps [simp del]

definition TradingAgent_run ::
  "primitives \<Rightarrow> (nat \<Rightarrow> iteration) \<Rightarrow> TradingConfig \<Rightarrow> nat \<Rightarrow> world
     \<Rightarrow> string list \<times> world" where
  "TradingAgent_run P env config this W =
     tradingLoop P env config this 0 1 []
       (W\<lparr>objects := (objects W)[this := setRunning True (objects W ! this)]\<rparr>)"

subsection \<open>LiquidityAgent\<close>

datatype liquidityAction = ADD_LIQUIDITY | REMOVE_LIQUIDITY | HOLD'

definition evaluateBalance :: "real \<Rightarrow> LiquidityConfig \<Rightarrow> liquidityAction" where
  "evaluateBalance balance config =
     (if balance < minBalance config then ADD_LIQUIDITY
      else if balance > maxBalance config then REMOVE_LIQUIDITY
      else HOLD')"

definition liquidityAttempt ::
  "primitives \<Rightarrow> iteration \<Rightarrow> LiquidityConfig \<Rightarrow> real \<Rightarrow> attempt" where
  "liquidityAttempt P it config currentBalance =
     (case evaluateBalance currentBalance config of
        ADD_LIQUIDITY \<Rightarrow>
          (case toBaseUnits P (rebalanceAmount config) of
             Inl e \<Rightarrow> Failed e
           | Inr units \<Rightarrow> outcome (mintSpl it))
      | REMOVE_LIQUIDITY \<Rightarrow>
          if currentBalance > 0 then
            (case newPublicKey P burnAddress of
               Inl e \<Rightarrow> Failed e
             | Inr burn \<Rightarrow>
                 (case toBaseUnits P (min currentBalance (rebalanceAmount config)) of
                    Inl e \<Rightarrow> Failed e
                  | Inr units \<Rightarrow> outcome (transferSpl it)))
          else Held
      | HOLD' \<Rightarrow> Held)"

definition liquidityLabel :: "LiquidityConfig \<Rightarrow> real \<Rightarrow> string" where
  "liquidityLabel config currentBalance =
     (if evaluateBalance currentBalance config = ADD_LIQUIDITY then ''Add liquidity failed:''
      else ''Remove liquidity failed:'')"

text \<open>
  \<^verbatim>\<open>balance ? parseFloat(balance.amount) : 0\<close> for the balance of the pool mint. The balance
  query at the top of an iteration stands outside every \<^verbatim>\<open>try\<close>: its failure ends the run
  with that error.
\<close>

definition balanceOf :: "primitives \<Rightarrow> LiquidityConfig \<Rightarrow> SplBalance list \<Rightarrow> real" where
  "balanceOf P config balances =
     (case find (\<lambda>b. mint b = poolMint config) balances of
        None \<Rightarrow> 0
      | Some balance \<Rightarrow> parseFloat P (amount balance))"

function liquidityLoop ::
  "primitives \<Rightarrow> (nat \<Rightarrow> iteration) \<Rightarrow> LiquidityConfig \<Rightarrow> nat \<Rightarrow> nat
     \<Rightarrow> string list \<Rightarrow> world \<Rightarrow> (error + string list) \<times> world" where
  "liquidityLoop P env config this i signatures W =
     (if real i < iterations config \<and> running (objects W ! this) then
        (case getSplBalances (env i) of
           Inl e \<Rightarrow> (Inl e, meanwhile (duringAction (env i)) W)
         | Inr balances \<Rightarrow>
             (let currentBalance = balanceOf P config balances;
                  a = liquidityAttempt P (env i) config currentBalance;
                  W1 = logFailure (liquidityLabel config currentBalance) a
                         (meanwhile (duringAction (env i)) W);
                  W2 = pacing config this (env i) i W1
              in liquidityLoop P env config this (i + 1) (push a signatures) W2))
      else (Inr signatures, W))"
  by pat_completeness auto
termination
  by (relation "measure (\<lambda>(P, env, config, this, i, signatures, W).
                  nat \<lceil>iterations config\<rceil> - i)")
     (auto, linarith+)

declare liquidityLoop.simps [simp del]

definition LiquidityAgent_run ::
  "primitives \<Rightarrow> (nat \<Rightarrow> iteration) \<Rightarrow> LiquidityConfig \<Rightarrow> nat \<Rightarrow> world
     \<Rightarrow> (error + string list) \<times> world" where
  "LiquidityAgent_run P env config this W =
     liquidityLoop P env config this 0 []
       (W\<lparr>objects := (objects W)[this := setRunning True (objects W ! this)]\<rparr>)"

section \<open>Running an agent (src/orchestrator/Orchestrator.ts)\<close>

text \<open>
  The options of the three run operations; a primed field is the option of that name, and an
  omitted one is \<open>None\<close>. Each operation looks the record up, loads the wallet, creates its
  runner, stores it under the agent id without looking whether an entry is there, runs the
  loop, and deletes the entry when the loop has returned. Where the loop throws, the lines
  after the \<^verbatim>\<open>await\<close> are not reached.
\<close>

record runOptions =
  iterations' :: "real option"
  intervalMs' :: "real option"

record runAgentLoopOptions = runOptions +
  to' :: buffer
  sol' :: real
  holdProbability' :: "real option"

record runTradingOptions = runOptions +
  targetMint' :: string
  buyThreshold' :: "real option"
  sellThreshold' :: "real option"
  tradeAmount' :: "real option"

record runLiquidityOptions = runOptions +
  poolMint' :: string
  minBalance' :: "real option"
  maxBalance' :: "real option"
  rebalanceAmount' :: "real option"

text \<open>The configuration each operation hands to its loop, defaults filled in.\<close>

definition loopOptions :: "runAgentLoopOptions \<Rightarrow> AgentLoopOptions" where
  "loopOptions opts =
     \<lparr>iterations = nullish (iterations' opts) 5,
      intervalMs = nullish (intervalMs' opts) 3000,
      to = to' opts,
      sol = sol' opts,
      holdProbability = min (max (nullish (holdProbability' opts) 0.6) 0) 1\<rparr>"

definition tradingConfig :: "runTradingOptions \<Rightarrow> TradingConfig" where
  "tradingConfig opts =
     \<lparr>iterations = nullish (iterations' opts) 5,
      intervalMs = nullish (intervalMs' opts) 3000,
      targetMint = targetMint' opts,
      buyThreshold = nullish (buyThreshold' opts) 0.95,
      sellThreshold = nullish (sellThreshold' opts) 1.05,
      tradeAmount = nullish (tradeAmount' opts) 1\<rparr>"

definition liquidityConfig :: "runLiquidityOptions \<Rightarrow> LiquidityConfig" where
  "liquidityConfig opts =
     \<lparr>iterations = nullish (iterations' opts) 5,
      intervalMs = nullish (intervalMs' opts) 3000,
      poolMint = poolMint' opts,
      minBalance = nullish (minBalance' opts) 10,
      maxBalance = nullish (maxBalance' opts) 100,
      rebalanceAmount = nullish (rebalanceAmount' opts) 5\<rparr>"

definition register :: "world \<Rightarrow> string \<Rightarrow> runner \<Rightarrow> string \<Rightarrow> world" where
  "register W i r strat =
     W\<lparr>objects := objects W @ [r],
       runningAgents := (runningAgents W)(i \<mapsto> \<lparr>ra_id = i, runner = length (objects W)\<rparr>),
       emitted := emitted W @ [agent_started i strat]\<rparr>"

definition complete :: "world \<Rightarrow> string \<Rightarrow> string list \<Rightarrow> world" where
  "complete W i signatures =
     W\<lparr>runningAgents := (runningAgents W)(i := None),
       emitted := emitted W @ [agent_completed i signatures]\<rparr>"

definition runAgentLoop ::
  "settings \<Rightarrow> (nat \<Rightarrow> iteration) \<Rightarrow> world \<Rightarrow> string \<Rightarrow> runAgentLoopOptions
     \<Rightarrow> (error + string list) \<times> world" where
  "runAgentLoop S env W i opts =
     (case getAgent (agentStore W) i of
        None \<Rightarrow> (Inl (AgentNotFound i), W)
      | Some record \<Rightarrow>
          (case loadWallet (prims S) (KEYSTORE_PASSPHRASE S) (keys W) (KEYSTORE_DIR S)
                  (walletName record) of
             Inl e \<Rightarrow> (Inl e, W)
           | Inr wallet \<Rightarrow>
               (let W1 = register W i SimpleAgentRunner ''simple_transfer''
                in case runSolTransferLoop env (loopOptions opts) 0 [] W1 of
                     (Inl e, W2) \<Rightarrow> (Inl e, W2)
                   | (Inr signatures, W2) \<Rightarrow> (Inr signatures, complete W2 i signatures))))"

definition runTradingAgent ::
  "settings \<Rightarrow> (nat \<Rightarrow> iteration) \<Rightarrow> world \<Rightarrow> string \<Rightarrow> runTradingOptions
     \<Rightarrow> (error + string list) \<times> world" where
  "runTradingAgent S env W i opts =
     (case getAgent (agentStore W) i of
        None \<Rightarrow> (Inl (AgentNotFound i), W)
      | Some record \<Rightarrow>
          (case loadWallet (prims S) (KEYSTORE_PASSPHRASE S) (keys W) (KEYSTORE_DIR S)
                  (walletName record) of
             Inl e \<Rightarrow> (Inl e, W)
           | Inr wallet \<Rightarrow>
               (let W1 = register W i (TradingAgent False) ''trading'';
                    (signatures, W2) =
                      TradingAgent_run (prims S) env (tradingConfig opts) (length (objects W)) W1
                in (Inr signatures, complete W2 i signatures))))"

definition runLiquidityAgent ::
  "settings \<Rightarrow> (nat \<Rightarrow> iteration) \<Rightarrow> world \<Rightarrow> string \<Rightarrow> runLiquidityOptions
     \<Rightarrow> (error + string list) \<times> world" where
  "runLiquidityAgent S env W i opts =
     (case getAgent (agentStore W) i of
        None \<Rightarrow> (Inl (AgentNotFound i), W)
      | Some record \<Rightarrow>
          (case loadWallet (prims S) (KEYSTORE_PASSPHRASE S) (keys W) (KEYSTORE_DIR S)
                  (walletName record) of
             Inl e \<Rightarrow> (Inl e, W)
           | Inr wallet \<Rightarrow>
               (let W1 = register W i (LiquidityAgent False) ''liquidity''
                in case LiquidityAgent_run (prims S) env (liquidityConfig opts)
                          (length (objects W)) W1 of
                     (Inl e, W2) \<Rightarrow> (Inl e, W2)
                   | (Inr signatures, W2) \<Rightarrow> (Inr signatures, complete W2 i signatures))))"

section \<open>What a run should collect\<close>

text \<open>
  The notions the properties of the loops are stated with. \<open>priceAt env n\<close> is the mock price
  after \<open>n\<close> iterations; \<open>tradeAttemptAt\<close> and \<open>liquidityAttemptAt\<close> are what the action of
  iteration \<open>i\<close> comes to under \<open>env\<close>; \<open>collected\<close> keeps the identifiers of the attempts
  that were submitted, and \<open>reported\<close> the errors of those that failed, each with the label
  it is logged under. \<open>calmEnv\<close> says that no \<open>stopAgent\<close> call runs during the loop.
  \<open>attached W i this\<close> says that the runner object \<open>this\<close> can be stopped and, as long as it
  is running, is the one stored under the agent id \<open>i\<close>.
\<close>

fun priceAt :: "(nat \<Rightarrow> iteration) \<Rightarrow> nat \<Rightarrow> real" where
  "priceAt env 0 = 1"
| "priceAt env (Suc n) = priceAt env n * (0.95 + roll (env n) * 0.1)"

definition tradeAttemptAt ::
  "primitives \<Rightarrow> (nat \<Rightarrow> iteration) \<Rightarrow> TradingConfig \<Rightarrow> nat \<Rightarrow> attempt" where
  "tradeAttemptAt P env config i = tradeAttempt P (env i) config (priceAt env (Suc i))"

definition balanceAt ::
  "primitives \<Rightarrow> (nat \<Rightarrow> iteration) \<Rightarrow> LiquidityConfig \<Rightarrow> nat \<Rightarrow> real" where
  "balanceAt P env config i =
     (case getSplBalances (env i) of
        Inl e \<Rightarrow> 0
      | Inr balances \<Rightarrow> balanceOf P config balances)"

definition liquidityAttemptAt ::
  "primitives \<Rightarrow> (nat \<Rightarrow> iteration) \<Rightarrow> LiquidityConfig \<Rightarrow> nat \<Rightarrow> attempt" where
  "liquidityAttemptAt P env config i =
     liquidityAttempt P (env i) config (balanceAt P env config i)"


fun reported :: "(string \<times> attempt) list \<Rightarrow> (string \<times> error) list" where
  "reported [] = []"
| "reported ((label, Failed e) # rest) = (label, e) # reported rest"
| "reported ((label, Thrown e) # rest) = (label, e) # reported rest"
| "reported (la # rest) = reported rest"

definition calmEnv :: "(nat \<Rightarrow> iteration) \<Rightarrow> bool" where
  "calmEnv env \<longleftrightarrow> (\<forall>i. duringAction (env i) = [] \<and> duringSleep (env i) = [])"

definition attached :: "world \<Rightarrow> string \<Rightarrow> nat \<Rightarrow> bool" where
  "attached W i this \<longleftrightarrow>
     this < length (objects W) \<and> hasStop (objects W ! this) \<and>
     (running (objects W ! this) \<longrightarrow>
        (\<exists>entry. runningAgents W i = Some entry \<and> runner entry = this))"

section \<open>Sequences of registrations\<close>

text \<open>
  A request is a \<open>spawnAgent\<close> or a \<open>promoteWallet\<close> call with its arguments, paired with what
  the call draws. \<open>registered W nm\<close> says that the registry holds a record for the wallet
  name; \<open>spawnsUnregistered\<close> says that each spawn of the sequence, when its turn comes, names
  a wallet that is not registered.
\<close>

datatype request =
    Spawn string "string option" "number option"
  | Promote string string "number option"

fun perform :: "settings \<Rightarrow> request \<times> drawn \<Rightarrow> world \<Rightarrow> world" where
  "perform S (Spawn strat wName limit, d) W = snd (spawnAgent S d W strat wName limit)"
| "perform S (Promote wName strat limit, d) W = snd (promoteWallet S d W wName strat limit)"

fun performAll :: "settings \<Rightarrow> (request \<times> drawn) list \<Rightarrow> world \<Rightarrow> world" where
  "performAll S [] W = W"
| "performAll S (rq # rqs) W = performAll S rqs (perform S rq W)"

definition registered :: "world \<Rightarrow> string \<Rightarrow> bool" where
  "registered W nm \<longleftrightarrow> find (\<lambda>a. walletName a = nm) (readAgents (agentStore W)) \<noteq> None"

definition onePerWallet :: "world \<Rightarrow> bool" where
  "onePerWallet W \<longleftrightarrow> distinct (map walletName (readAgents (agentStore W)))"

fun spawnsUnregistered :: "settings \<Rightarrow> (request \<times> drawn) list \<Rightarrow> world \<Rightarrow> bool" where
  "spawnsUnregistered S [] W = True"
| "spawnsUnregistered S ((Spawn strat wName limit, d) # rqs) W =
     (\<not> registered W (nullish wName (''agent-'' @ dateNow d)) \<and>
      spawnsUnregistered S rqs (perform S (Spawn strat wName limit, d) W))"
| "spawnsUnregistered S ((Promote wName strat limit, d) # rqs) W =
     spawnsUnregistered S rqs (perform S (Promote wName strat limit, d) W)"

section \<open>Concrete data on which the model is evaluated\<close>

text \<open>
  A small instance of the primitives: a shift cipher whose tag is a checksum, an encoding
  that writes each byte as one character, a public key constructor that wants 32 of them, a
  path join that drops a leading \<^verbatim>\<open>./\<close> of the file name, a \<open>parseFloat\<close> that reads a
  text of decimal digits, and a conversion to base units that never overflows.
\<close>

definition shiftPrimitives :: primitives where
  "shiftPrimitives =
     \<lparr>scryptSync = (\<lambda>passphrase saltBytes keylen.
                      [length passphrase + sum_list saltBytes, keylen]),
      cipher = (\<lambda>key ivBytes plain.
                  (map (\<lambda>b. b + sum_list key + sum_list ivBytes) plain,
                   [sum_list plain + sum_list key])),
      decipher = (\<lambda>key ivBytes tagBytes cipherBytes.
                    (let plain = map (\<lambda>b. b - (sum_list key + sum_list ivBytes)) cipherBytes
                     in if tagBytes = [sum_list plain + sum_list key] then Some plain else None)),
      toBase64 = map char_of,
      fromBase64 = map of_char,
      toBase58 = map char_of,
      fromSecretKey = (\<lambda>bytes.
                         if even (length bytes)
                         then Inr \<lparr>publicKey = drop (length bytes div 2) bytes, secretKey = bytes\<rparr>
                         else Inl (External ''bad secret key size'')),
      newPublicKey = (\<lambda>text.
                        if length text = 32 then Inr (map of_char text)
                        else Inl (External ''Invalid public key input'')),
      pathJoin = (\<lambda>dir file.
                    dir @ ''/'' @ (if take 2 file = ''./'' then drop 2 file else file)),
      parseFloat = (\<lambda>text. real (foldl (\<lambda>n c. 10 * n + (of_char c - 48)) 0 text)),
      toBaseUnits = (\<lambda>x. Inr \<lfloor>x * 1000000 + 1/2\<rfloor>)\<rparr>"

definition keypairA :: Keypair where
  "keypairA = \<lparr>publicKey = [3, 4], secretKey = [1, 2, 3, 4]\<rparr>"

definition keypairB :: Keypair where
  "keypairB = \<lparr>publicKey = [7, 8], secretKey = [5, 6, 7, 8]\<rparr>"

definition agentA :: "number AgentRecord" where
  "agentA = \<lparr>id_of = ''a1'', walletName = ''w1'', walletAddress = ''addr1'',
             strategy = ''simple'', createdAt = ''t0'', splBalances = None,
             solSpent = Some (Num 0), spendingLimit = Some (Num 1), lastUpdated = Some ''t0''\<rparr>"

text \<open>
  Two roundings on which sums are evaluated: the one that keeps every sum as it is, and one
  that rounds to the nearest multiple of a quarter, so that a small amount is lost in a sum.
\<close>

definition exact :: "real \<Rightarrow> number" where
  "exact x = Num x"

definition quarters :: "real \<Rightarrow> number" where
  "quarters x = Num (of_int \<lfloor>4 * x + 1/2\<rfloor> / 4)"




text \<open>
  Settings with the shift cipher, a process that has the wallet \<open>w1\<close> on disk and no
  registry file yet, and what two calls draw.
\<close>

definition settingsA :: settings where
  "settingsA = \<lparr>prims = shiftPrimitives, KEYSTORE_PASSPHRASE = ''pw'', KEYSTORE_DIR = ''keys'',
                DEFAULT_SPENDING_LIMIT = Num 1\<rparr>"

definition worldA :: world where
  "worldA =
     \<lparr>agentStore = Inl (External ''ENOENT: no such file or directory''),
      keys = [''keys/w1.json'' \<mapsto>
                encryptKeypair shiftPrimitives ''pw'' [2] [1] ''t0'' ''w1'' keypairA],
      runningAgents = Map.empty,
      objects = [],
      emitted = [],
      console = []\<rparr>"

definition drawnA :: drawn where
  "drawnA = \<lparr>randomUUID = ''a1'', dateNow = ''1001'', isoNow = ''t1'', generated = keypairA,
             randomIv = [2], randomSalt = [1], writeRefused = None\<rparr>"

definition drawnB :: drawn where
  "drawnB = \<lparr>randomUUID = ''a2'', dateNow = ''1002'', isoNow = ''t2'', generated = keypairB,
             randomIv = [5], randomSalt = [4], writeRefused = None\<rparr>"

text \<open>
  The process after the wallet \<open>w1\<close> has been promoted to the agent \<open>a1\<close>; an iteration in
  which every call succeeds and nothing else runs; and loop environments built from it.
\<close>

definition worldB :: world where
  "worldB = perform settingsA (Promote ''w1'' ''simple'' None, drawnA) worldA"

definition steady :: iteration where
  "steady = \<lparr>roll = 1/2, transferSol = Inr ''sent'', mintSpl = Inr ''minted'',
             getSplBalances = Inr [], transferSpl = Inr ''moved'',
             duringAction = [], duringSleep = []\<rparr>"

definition secondFails :: "nat \<Rightarrow> iteration" where
  "secondFails i =
     (if i = 1
      then steady\<lparr>transferSol := Inl (External ''insufficient funds''),
                  mintSpl := Inl (External ''not the mint authority'')\<rparr>
      else steady)"

text \<open>A wallet that holds five tokens of the mint, in every iteration.\<close>

definition holding :: "nat \<Rightarrow> iteration" where
  "holding i = steady\<lparr>getSplBalances := Inr [\<lparr>mint = ''mintX'', amount = ''5'', decimals = 6\<rparr>]\<rparr>"

definition stopDuringFirst :: "nat \<Rightarrow> iteration" where
  "stopDuringFirst i = (if i = 0 then steady\<lparr>duringAction := [(''a1'', ''t5'')]\<rparr> else steady)"

definition threeTransfers :: AgentLoopOptions where
  "threeTransfers = \<lparr>iterations = 3, intervalMs = 0, to = [9], sol = 1/100, holdProbability = 0\<rparr>"

definition threeTrades :: TradingConfig where
  "threeTrades = \<lparr>iterations = 3, intervalMs = 0, targetMint = ''mintX'', buyThreshold = 2,
                  sellThreshold = 3, tradeAmount = 1\<rparr>"

definition threeDeposits :: LiquidityConfig where
  "threeDeposits = \<lparr>iterations = 3, intervalMs = 0, poolMint = ''mintX'', minBalance = 10,
                    maxBalance = 100, rebalanceAmount = 5\<rparr>"

text \<open>
  A trading configuration under which every price of the walk is above the sell threshold,
  and a liquidity configuration under which a balance of five is above the range.
\<close>

definition threeSales :: TradingConfig where
  "threeSales = \<lparr>iterations = 3, intervalMs = 0, targetMint = ''mintX'', buyThreshold = 0,
                 sellThreshold = 1/2, tradeAmount = 1\<rparr>"

definition threeWithdrawals :: LiquidityConfig where
  "threeWithdrawals = \<lparr>iterations = 3, intervalMs = 0, poolMint = ''mintX'', minBalance = 1,
                       maxBalance = 2, rebalanceAmount = 5\<rparr>"

text \<open>Ten iterations without pacing, as options of the three run operations.\<close>

definition tenTransfers :: runAgentLoopOptions where
  "tenTransfers = \<lparr>iterations' = Some 10, intervalMs' = Some 0, to' = [9], sol' = 1/100,
                   holdProbability' = Some 0\<rparr>"

definition tenTrades :: runTradingOptions where
  "tenTrades = \<lparr>iterations' = Some 10, intervalMs' = Some 0, targetMint' = ''mintX'',
                buyThreshold' = Some 2, sellThreshold' = Some 3, tradeAmount' = None\<rparr>"

definition tenDeposits :: runLiquidityOptions where
  "tenDeposits = \<lparr>iterations' = Some 10, intervalMs' = Some 0, poolMint' = ''mintX'',
                  minBalance' = None, maxBalance' = None, rebalanceAmount' = None\<rparr>"

text \<open>The process while a trading loop for the agent \<open>a1\<close> is in progress.\<close>

definition worldC :: world where
  "worldC = register worldB ''a1'' (TradingAgent True) ''trading''"

section \<open>Properties of the registry\<close>

lemma findIndex_range: "findIndex p xs = -1 \<or> 0 \<le> findIndex p xs"
  by (induction xs) (auto simp: Let_def)

lemma findIndex_ge: "findIndex p xs \<noteq> -1 \<Longrightarrow> 0 \<le> findIndex p xs"
  using findIndex_range [of p xs] by blast

lemma findIndex_find_None: "findIndex p xs = -1 \<longleftrightarrow> find p xs = None"
proof (induction xs)
  case Nil
  show ?case by simp
next
  case (Cons x xs)
  have "0 \<le> findIndex p xs \<or> findIndex p xs = -1"
    using findIndex_ge [of p xs] by blast
  with Cons show ?case by (auto simp: Let_def)
qed

lemma find_update_findIndex:
  "find p xs = Some x \<Longrightarrow> p y \<Longrightarrow> find p (xs[nat (findIndex p xs) := y]) = Some y"
proof (induction xs)
  case Nil
  then show ?case by simp
next
  case (Cons a xs)
  show ?case
  proof (cases "p a")
    case True
    with Cons.prems show ?thesis by simp
  next
    case False
    with Cons.prems have fx: "find p xs = Some x" by simp
    then have ne: "findIndex p xs \<noteq> -1" by (simp add: findIndex_find_None)
    then have ge: "0 \<le> findIndex p xs" by (rule findIndex_ge)
    have "nat (findIndex p xs + 1) = Suc (nat (findIndex p xs))" using ge by simp
    with False ne Cons.IH [OF fx Cons.prems(2)] show ?thesis by (simp add: Let_def)
  qed
qed

lemma stringify_parse: "stringify (parse filed) = filed"
  by (cases "solSpent filed"; cases "spendingLimit filed")
     (simp_all add: stringify_def parse_def toJSON_def)

lemma parse_stringify:
  "parse (stringify record) =
     record\<lparr>solSpent := map_option Num (Option.bind (solSpent record) toJSON),
            spendingLimit := map_option Num (Option.bind (spendingLimit record) toJSON)\<rparr>"
  by (simp add: stringify_def parse_def)

lemma map_stringify_update:
  "map stringify ((map parse records)[k := record]) = records[k := stringify record]"
  by (simp add: map_update stringify_parse comp_def)

lemma getAgent_id: "getAgent store i = Some r \<Longrightarrow> id_of r = i"
  unfolding getAgent_def by (auto dest: find_Some_iff [THEN iffD1])

lemma getAgent_store:
  "getAgent store i = Some r \<Longrightarrow> \<exists>records. store = Inr records"
  by (cases store) (simp_all add: getAgent_def readAgents_def)

lemma getAgent_parsed: "getAgent store i = Some r \<Longrightarrow> \<exists>filed. r = parse filed"
proof -
  assume "getAgent store i = Some r"
  then have "r \<in> set (readAgents store)"
    by (auto simp: getAgent_def find_Some_iff)
  then show ?thesis by (cases store) (auto simp: readAgents_def)
qed

lemma parsed_limit:
  "map_option Num (Option.bind (spendingLimit (parse filed)) toJSON) = spendingLimit (parse filed)"
  by (cases "spendingLimit filed") (simp_all add: parse_def toJSON_def)


lemma readAgents_written:
  "readAgents (writeAgents ((readAgents store)[k := record])) =
     (readAgents store)[k := parse (stringify record)]"
proof (cases store)
  case (Inl e)
  then show ?thesis by (simp add: readAgents_def writeAgents_def)
next
  case (Inr records)
  have "map parse (map stringify ((map parse records)[k := record])) =
      (map parse records)[k := parse (stringify record)]"
    unfolding map_stringify_update by (simp add: map_update)
  then show ?thesis by (simp add: Inr readAgents_def writeAgents_def)
qed

lemma writeAgents_update:
  "writeAgents ((readAgents (Inr records))[k := record]) = Inr (records[k := stringify record])"
  by (simp add: readAgents_def writeAgents_def map_stringify_update)

lemma updateAgent_found:
  assumes found: "getAgent store i = Some r" and idr: "id_of record = i"
  shows "updateAgent store record =
           (Inr (), writeAgents ((readAgents store)
                      [nat (findIndex (\<lambda>a. id_of a = i) (readAgents store)) := record]))"
proof -
  have "find (\<lambda>a. id_of a = i) (readAgents store) = Some r"
    using found by (simp add: getAgent_def)
  then have "findIndex (\<lambda>a. id_of a = i) (readAgents store) \<noteq> -1"
    by (simp add: findIndex_find_None)
  then show ?thesis using idr by (simp add: updateAgent_def Let_def)
qed

lemma getAgent_written:
  assumes found: "getAgent store i = Some r" and idr: "id_of record = i"
  shows "getAgent (writeAgents ((readAgents store)
                     [nat (findIndex (\<lambda>a. id_of a = i) (readAgents store)) := record])) i =
           Some (parse (stringify record))"
proof -
  have f: "find (\<lambda>a. id_of a = i) (readAgents store) = Some r"
    using found by (simp add: getAgent_def)
  have "id_of (parse (stringify record)) = i"
    using idr by (simp add: parse_def stringify_def)
  with f show ?thesis
    unfolding getAgent_def readAgents_written by (intro find_update_findIndex) simp_all
qed

lemma getAgent_other_update:
  "findIndex (\<lambda>a. id_of a = i) xs \<noteq> -1 \<Longrightarrow> id_of record = i \<Longrightarrow> j \<noteq> i \<Longrightarrow>
   find (\<lambda>a. id_of a = j) (xs[nat (findIndex (\<lambda>a. id_of a = i) xs) := record]) =
   find (\<lambda>a. id_of a = j) xs"
proof (induction xs)
  case Nil
  show ?case by simp
next
  case (Cons a xs)
  let ?k = "findIndex (\<lambda>a. id_of a = i) xs"
  show ?case
  proof (cases "id_of a = i")
    case True
    with Cons.prems show ?thesis by simp
  next
    case False
    show ?thesis
    proof (cases "?k = -1")
      case True
      with False Cons.prems(1) show ?thesis by (simp add: Let_def)
    next
      case ne: False
      then have "0 \<le> ?k" by (rule findIndex_ge)
      then have "nat (?k + 1) = Suc (nat ?k)" by simp
      with False ne Cons.IH [OF ne Cons.prems(2,3)] show ?thesis by (simp add: Let_def)
    qed
  qed
qed

lemma getAgent_written_other:
  assumes found: "getAgent store i = Some r" and idr: "id_of record = i" and other: "j \<noteq> i"
  shows "getAgent (writeAgents ((readAgents store)
                     [nat (findIndex (\<lambda>a. id_of a = i) (readAgents store)) := record])) j =
           getAgent store j"
proof -
  have "find (\<lambda>a. id_of a = i) (readAgents store) = Some r"
    using found by (simp add: getAgent_def)
  then have ne: "findIndex (\<lambda>a. id_of a = i) (readAgents store) \<noteq> -1"
    by (simp add: findIndex_find_None)
  have "id_of (parse (stringify record)) = i"
    using idr by (simp add: parse_def stringify_def)
  from getAgent_other_update [OF ne this other] show ?thesis
    unfolding getAgent_def readAgents_written .
qed

lemma trackSpending_rejects:
  assumes "getAgent store i = Some r"
    and "gt (add rnd (nullish (solSpent r) (Num 0)) amt) (nullish (spendingLimit r) dflt)"
  shows "trackSpending rnd dflt now store i amt =
           (Inl (SpendingLimitExceeded (add rnd (nullish (solSpent r) (Num 0)) amt)
                   (nullish (spendingLimit r) dflt)), store)"
  using assms by (simp add: trackSpending_def Let_def)

lemma trackSpending_accepts:
  assumes found: "getAgent store i = Some r"
    and ok: "\<not> gt (add rnd (nullish (solSpent r) (Num 0)) amt) (nullish (spendingLimit r) dflt)"
  shows "trackSpending rnd dflt now store i amt =
           (Inr (), writeAgents ((readAgents store)
              [nat (findIndex (\<lambda>a. id_of a = i) (readAgents store)) :=
                 r\<lparr>solSpent := Some (add rnd (nullish (solSpent r) (Num 0)) amt),
                   lastUpdated := Some now\<rparr>]))"
proof -
  have idr: "id_of r = i" using found by (rule getAgent_id)
  have "trackSpending rnd dflt now store i amt =
      updateAgent store (r\<lparr>solSpent := Some (add rnd (nullish (solSpent r) (Num 0)) amt),
                           lastUpdated := Some now\<rparr>)"
    using found ok by (simp add: trackSpending_def Let_def)
  also have "\<dots> = (Inr (), writeAgents ((readAgents store)
              [nat (findIndex (\<lambda>a. id_of a = i) (readAgents store)) :=
                 r\<lparr>solSpent := Some (add rnd (nullish (solSpent r) (Num 0)) amt),
                   lastUpdated := Some now\<rparr>]))"
    using idr by (intro updateAgent_found [OF found]) simp
  finally show ?thesis .
qed

lemma trackSpending_reads:
  assumes found: "getAgent store i = Some r"
    and ok: "\<not> gt (add rnd (nullish (solSpent r) (Num 0)) amt) (nullish (spendingLimit r) dflt)"
  shows "getAgent (snd (trackSpending rnd dflt now store i amt)) i =
           Some (r\<lparr>solSpent := map_option Num (toJSON (add rnd (nullish (solSpent r) (Num 0)) amt)),
                    lastUpdated := Some now\<rparr>)"
proof -
  let ?r' = "r\<lparr>solSpent := Some (add rnd (nullish (solSpent r) (Num 0)) amt),
               lastUpdated := Some now\<rparr>"
  have idr: "id_of ?r' = i" using getAgent_id [OF found] by simp
  obtain filed where p: "r = parse filed" using getAgent_parsed [OF found] by blast
  have "parse (stringify ?r') =
      r\<lparr>solSpent := map_option Num (toJSON (add rnd (nullish (solSpent r) (Num 0)) amt)),
        lastUpdated := Some now\<rparr>"
    unfolding parse_stringify using parsed_limit [of filed] by (simp add: p)
  with getAgent_written [OF found idr] show ?thesis
    by (simp add: trackSpending_accepts [OF found ok])
qed

lemma trackSpending_frame:
  assumes "j \<noteq> i"
  shows "getAgent (snd (trackSpending rnd dflt now store i amt)) j = getAgent store j"
proof (cases "getAgent store i")
  case None
  then show ?thesis by (simp add: trackSpending_def)
next
  case (Some r)
  show ?thesis
  proof (cases "gt (add rnd (nullish (solSpent r) (Num 0)) amt) (nullish (spendingLimit r) dflt)")
    case True
    with Some show ?thesis by (simp add: trackSpending_rejects)
  next
    case False
    let ?r' = "r\<lparr>solSpent := Some (add rnd (nullish (solSpent r) (Num 0)) amt),
                 lastUpdated := Some now\<rparr>"
    have "id_of ?r' = i" using getAgent_id [OF Some] by simp
    from getAgent_written_other [OF Some this assms] show ?thesis
      by (simp add: trackSpending_accepts [OF Some False])
  qed
qed

lemma trackSpending_preserves:
  assumes found: "getAgent store i = Some r" and inv: "withinLimit dflt r"
    and pos: "lte (Num 0) (nullish (spendingLimit r) dflt)"
  shows "\<exists>r'. getAgent (snd (trackSpending rnd dflt now store i amt)) i = Some r' \<and>
              withinLimit dflt r' \<and> spendingLimit r' = spendingLimit r"
proof (cases "gt (add rnd (nullish (solSpent r) (Num 0)) amt) (nullish (spendingLimit r) dflt)")
  case True
  with found inv show ?thesis by (simp add: trackSpending_rejects)
next
  case False
  let ?spent = "add rnd (nullish (solSpent r) (Num 0)) amt"
  let ?r' = "r\<lparr>solSpent := map_option Num (toJSON ?spent), lastUpdated := Some now\<rparr>"
  have "withinLimit dflt ?r'"
    using False pos
    by (cases ?spent; cases "nullish (spendingLimit r) dflt")
       (simp_all add: withinLimit_def nullish_def lte_def gt_def toJSON_def)
  with trackSpending_reads [OF found False, of now] show ?thesis by simp
qed

lemma trackAll_preserves:
  "getAgent store i = Some r \<Longrightarrow> withinLimit dflt r \<Longrightarrow>
   lte (Num 0) (nullish (spendingLimit r) dflt) \<Longrightarrow>
   \<exists>r'. getAgent (trackAll rnd dflt store i calls) i = Some r' \<and> withinLimit dflt r'"
proof (induction calls arbitrary: store r)
  case Nil
  then show ?case by simp
next
  case (Cons c calls)
  obtain now amt where c: "c = (now, amt)" by (cases c)
  from trackSpending_preserves [OF Cons.prems, of rnd now amt]
  obtain r1 where 1: "getAgent (snd (trackSpending rnd dflt now store i amt)) i = Some r1"
    and 2: "withinLimit dflt r1" and 3: "spendingLimit r1 = spendingLimit r" by blast
  from 3 Cons.prems(3) have "lte (Num 0) (nullish (spendingLimit r1) dflt)" by simp
  from Cons.IH [OF 1 2 this] show ?case by (simp add: c)
qed

lemmas spending_evaluation =
  getAgent_def readAgents_def writeAgents_def parse_def stringify_def toJSON_def agentA_def
  nullish_def withinLimit_def lte_def gt_def add_def exact_def quarters_def

text \<open>
  C1 (as amended). On a record whose spending is within its limit to begin with and whose
  limit is not negative, the invariant \<open>solSpent \<le> spendingLimit\<close> holds after every prefix
  of every sequence of \<open>trackSpending\<close> calls, whatever the amounts. On every record, a call
  whose sum, as the code computes it in double arithmetic, exceeds the limit fails with the
  limit error and leaves the whole store as it was. Any other call succeeds and rewrites the
  store file with that one record replaced: its \<open>solSpent\<close> is the sum, which the file holds
  as \<^verbatim>\<open>null\<close> and the next read finds absent when the sum is \<^verbatim>\<open>NaN\<close> or infinite, and its
  \<open>lastUpdated\<close> is the timestamp; nothing else in the record, no other record and no other
  position of the file changes.
\<close>

theorem trackSpending_invariant:
  assumes found: "getAgent store i = Some r"
  shows "(withinLimit dflt r \<and> lte (Num 0) (nullish (spendingLimit r) dflt) \<longrightarrow>
            (\<forall>n. \<exists>r'. getAgent (trackAll rnd dflt store i (take n calls)) i = Some r' \<and>
                        withinLimit dflt r')) \<and>
         (gt (add rnd (nullish (solSpent r) (Num 0)) amt) (nullish (spendingLimit r) dflt) \<longrightarrow>
            trackSpending rnd dflt now store i amt =
              (Inl (SpendingLimitExceeded (add rnd (nullish (solSpent r) (Num 0)) amt)
                      (nullish (spendingLimit r) dflt)), store)) \<and>
         (\<not> gt (add rnd (nullish (solSpent r) (Num 0)) amt) (nullish (spendingLimit r) dflt) \<longrightarrow>
            (\<exists>records. store = Inr records \<and>
               trackSpending rnd dflt now store i amt =
                 (Inr (),
                  Inr (records[nat (findIndex (\<lambda>a. id_of a = i) (map parse records)) :=
                         stringify (r\<lparr>solSpent :=
                                        Some (add rnd (nullish (solSpent r) (Num 0)) amt),
                                      lastUpdated := Some now\<rparr>)]))) \<and>
            getAgent (snd (trackSpending rnd dflt now store i amt)) i =
              Some (r\<lparr>solSpent :=
                         map_option Num (toJSON (add rnd (nullish (solSpent r) (Num 0)) amt)),
                       lastUpdated := Some now\<rparr>) \<and>
            (\<forall>j. j \<noteq> i \<longrightarrow>
               getAgent (snd (trackSpending rnd dflt now store i amt)) j = getAgent store j))"
proof (intro conjI impI allI)
  fix n
  assume "withinLimit dflt r \<and> lte (Num 0) (nullish (spendingLimit r) dflt)"
  with found show "\<exists>r'. getAgent (trackAll rnd dflt store i (take n calls)) i = Some r' \<and>
                        withinLimit dflt r'"
    by (simp add: trackAll_preserves)
next
  assume "gt (add rnd (nullish (solSpent r) (Num 0)) amt) (nullish (spendingLimit r) dflt)"
  with found show "trackSpending rnd dflt now store i amt =
      (Inl (SpendingLimitExceeded (add rnd (nullish (solSpent r) (Num 0)) amt)
              (nullish (spendingLimit r) dflt)), store)"
    by (rule trackSpending_rejects)
next
  assume ok: "\<not> gt (add rnd (nullish (solSpent r) (Num 0)) amt) (nullish (spendingLimit r) dflt)"
  obtain records where s: "store = Inr records" using getAgent_store [OF found] by blast
  have "readAgents store = map parse records" by (simp add: s readAgents_def)
  with trackSpending_accepts [OF found ok, of now] writeAgents_update [of records]
  show "\<exists>records. store = Inr records \<and>
               trackSpending rnd dflt now store i amt =
                 (Inr (),
                  Inr (records[nat (findIndex (\<lambda>a. id_of a = i) (map parse records)) :=
                         stringify (r\<lparr>solSpent :=
                                        Some (add rnd (nullish (solSpent r) (Num 0)) amt),
                                      lastUpdated := Some now\<rparr>)]))"
    by (simp add: s)
  from found ok
  show "getAgent (snd (trackSpending rnd dflt now store i amt)) i =
      Some (r\<lparr>solSpent := map_option Num (toJSON (add rnd (nullish (solSpent r) (Num 0)) amt)),
               lastUpdated := Some now\<rparr>)"
    by (rule trackSpending_reads)
next
  fix j :: string
  assume "j \<noteq> i"
  then show "getAgent (snd (trackSpending rnd dflt now store i amt)) j = getAgent store j"
    by (rule trackSpending_frame)
qed


theorem trackSpending_invariant_witness:
  "getAgent (writeAgents [agentA]) ''a1'' = Some agentA \<and>
   withinLimit (Num 1) agentA \<and> lte (Num 0) (nullish (spendingLimit agentA) (Num 1)) \<and>
   (\<exists>r'. getAgent (trackAll exact (Num 1) (writeAgents [agentA]) ''a1''
                     (take 2 [(''t1'', Num (1/2)), (''t2'', Num (3/5))])) ''a1'' = Some r' \<and>
         withinLimit (Num 1) r') \<and>
   trackSpending exact (Num 1) ''t1'' (writeAgents [agentA]) ''a1'' (Num (1/2)) =
     (Inr (), writeAgents [agentA\<lparr>solSpent := Some (Num (1/2)), lastUpdated := Some ''t1''\<rparr>]) \<and>
   trackSpending exact (Num 1) ''t2'' (writeAgents [agentA\<lparr>solSpent := Some (Num (1/2))\<rparr>])
       ''a1'' (Num (3/5)) =
     (Inl (SpendingLimitExceeded (Num (11/10)) (Num 1)),
      writeAgents [agentA\<lparr>solSpent := Some (Num (1/2))\<rparr>]) \<and>
   trackSpending quarters (Num 1) ''t3'' (writeAgents [agentA\<lparr>solSpent := Some (Num 1)\<rparr>])
       ''a1'' (Num (1/16)) =
     (Inr (), writeAgents [agentA\<lparr>solSpent := Some (Num 1), lastUpdated := Some ''t3''\<rparr>]) \<and>
   getAgent (snd (trackSpending exact (Num 1) ''t4''
                    (writeAgents [agentA\<lparr>solSpent := Some (Num (1/2))\<rparr>]) ''a1'' NaN)) ''a1'' =
     Some (agentA\<lparr>solSpent := None, lastUpdated := Some ''t4''\<rparr>)"
proof -
  let ?half = "agentA\<lparr>solSpent := Some (Num (1/2))\<rparr>"
  let ?full = "agentA\<lparr>solSpent := Some (Num 1)\<rparr>"
  have f: "getAgent (writeAgents [agentA]) ''a1'' = Some agentA"
    by (simp add: spending_evaluation)
  have g: "getAgent (writeAgents [?half]) ''a1'' = Some ?half"
    by (simp add: spending_evaluation)
  have h: "getAgent (writeAgents [?full]) ''a1'' = Some ?full"
    by (simp add: spending_evaluation)
  have w: "withinLimit (Num 1) agentA" "lte (Num 0) (nullish (spendingLimit agentA) (Num 1))"
    by (simp_all add: spending_evaluation)
  note a = trackSpending_invariant [OF f, of "Num 1" exact
      "[(''t1'', Num (1/2)), (''t2'', Num (3/5))]" "Num (1/2)" "''t1''"]
  note b = trackSpending_invariant [OF g, of "Num 1" exact "[]" "Num (3/5)" "''t2''"]
  note c = trackSpending_invariant [OF h, of "Num 1" quarters "[]" "Num (1/16)" "''t3''"]
  note d = trackSpending_invariant [OF g, of "Num 1" exact "[]" NaN "''t4''"]
  from a w have 1: "\<exists>r'. getAgent (trackAll exact (Num 1) (writeAgents [agentA]) ''a1''
      (take 2 [(''t1'', Num (1/2)), (''t2'', Num (3/5))])) ''a1'' = Some r' \<and> withinLimit (Num 1) r'"
    by blast
  from a have 2: "trackSpending exact (Num 1) ''t1'' (writeAgents [agentA]) ''a1'' (Num (1/2)) =
     (Inr (), writeAgents [agentA\<lparr>solSpent := Some (Num (1/2)), lastUpdated := Some ''t1''\<rparr>])"
    by (simp add: spending_evaluation)
  from b have 3: "trackSpending exact (Num 1) ''t2'' (writeAgents [?half]) ''a1'' (Num (3/5)) =
     (Inl (SpendingLimitExceeded (Num (11/10)) (Num 1)), writeAgents [?half])"
    by (simp add: spending_evaluation)
  from c have 4: "trackSpending quarters (Num 1) ''t3'' (writeAgents [?full]) ''a1'' (Num (1/16)) =
     (Inr (), writeAgents [agentA\<lparr>solSpent := Some (Num 1), lastUpdated := Some ''t3''\<rparr>])"
    by (simp add: spending_evaluation)
  from d have 5: "getAgent (snd (trackSpending exact (Num 1) ''t4'' (writeAgents [?half])
      ''a1'' NaN)) ''a1'' = Some (agentA\<lparr>solSpent := None, lastUpdated := Some ''t4''\<rparr>)"
    by (simp add: spending_evaluation)
  from f w 1 2 3 4 5 show ?thesis by blast
qed


text \<open>
  The claim as stated, for every agent record, fails on a record whose limit is below its
  spending, such as one created with the limit \<open>-1\<close>: the call is refused and the record
  stays outside the invariant. It also fails where the sum is not a finite number: on the
  record with \<open>solSpent = -2\<close> and the limit \<open>-1\<close>, which is within its limit, the amount
  \<^verbatim>\<open>NaN\<close> is accepted, the file receives \<^verbatim>\<open>null\<close>, and the record is read with no \<open>solSpent\<close>,
  that is \<open>0\<close>, above its limit.
\<close>

theorem trackSpending_invariant_counterexample:
  "getAgent (writeAgents [agentA\<lparr>spendingLimit := Some (Num (-1))\<rparr>]) ''a1'' =
     Some (agentA\<lparr>spendingLimit := Some (Num (-1))\<rparr>) \<and>
   trackSpending exact (Num 1) ''t1'' (writeAgents [agentA\<lparr>spendingLimit := Some (Num (-1))\<rparr>])
       ''a1'' (Num 1) =
     (Inl (SpendingLimitExceeded (Num 1) (Num (-1))),
      writeAgents [agentA\<lparr>spendingLimit := Some (Num (-1))\<rparr>]) \<and>
   (\<exists>r'. getAgent (trackAll exact (Num 1)
                     (writeAgents [agentA\<lparr>spendingLimit := Some (Num (-1))\<rparr>]) ''a1''
                     (take 1 [(''t1'', Num 1)])) ''a1'' = Some r' \<and>
         \<not> withinLimit (Num 1) r') \<and>
   (\<exists>r. fst (spawnAgent settingsA drawnA worldA ''simple'' None (Some (Num (-1)))) = Inr r \<and>
        solSpent r = Some (Num 0) \<and> spendingLimit r = Some (Num (-1)) \<and>
        \<not> withinLimit (Num 1) r) \<and>
   withinLimit (Num 1) (agentA\<lparr>solSpent := Some (Num (-2)), spendingLimit := Some (Num (-1))\<rparr>) \<and>
   (\<exists>r'. getAgent (snd (trackSpending exact (Num 1) ''t2''
                           (writeAgents [agentA\<lparr>solSpent := Some (Num (-2)),
                                                 spendingLimit := Some (Num (-1))\<rparr>])
                           ''a1'' NaN)) ''a1'' = Some r' \<and>
         solSpent r' = None \<and> \<not> withinLimit (Num 1) r')"
  by (simp add: trackSpending_def updateAgent_def spending_evaluation Let_def spawnAgent_def
      createWallet_def saveKeypair_def settingsA_def drawnA_def worldA_def)

section \<open>Properties of the allowlist\<close>

lemma validateInstructions_find:
  "validateInstructions allowed ins =
     (case find (\<lambda>instruction. \<not> isAllowed allowed (programId instruction)) ins of
        None \<Rightarrow> Inr ()
      | Some instruction \<Rightarrow> Inl (ProgramNotAllowlisted (programId instruction)))"
  by (induction ins) simp_all

lemma isAllowed_nonempty: "allowed \<noteq> [] \<Longrightarrow> isAllowed allowed p \<longleftrightarrow> p \<in> set allowed"
  by (simp add: isAllowed_def)

text \<open>
  C4. With an empty allow-set \<open>validateTransaction\<close> accepts every transaction. With a
  non-empty one it accepts exactly the transactions all of whose instructions name a program
  of the set, and otherwise fails with the error that names the program of the first
  instruction outside the set.
\<close>

theorem validateTransaction_allowlist:
  "(set allowed = {} \<longrightarrow> validateTransaction allowed tx = Inr ()) \<and>
   (set allowed \<noteq> {} \<longrightarrow>
      (validateTransaction allowed tx = Inr () \<longleftrightarrow>
         (\<forall>instruction \<in> set (instructions tx). programId instruction \<in> set allowed)) \<and>
      (\<forall>first. find (\<lambda>instruction. programId instruction \<notin> set allowed) (instructions tx)
                  = Some first \<longrightarrow>
         validateTransaction allowed tx = Inl (ProgramNotAllowlisted (programId first))))"
proof (intro conjI impI allI)
  assume "set allowed = {}"
  then show "validateTransaction allowed tx = Inr ()"
    by (simp add: validateTransaction_def)
next
  assume ne: "set allowed \<noteq> {}"
  then have v: "validateTransaction allowed tx =
      (case find (\<lambda>instruction. programId instruction \<notin> set allowed) (instructions tx) of
         None \<Rightarrow> Inr ()
       | Some instruction \<Rightarrow> Inl (ProgramNotAllowlisted (programId instruction)))"
    by (simp add: validateTransaction_def validateInstructions_find isAllowed_def)
  show "validateTransaction allowed tx = Inr () \<longleftrightarrow>
      (\<forall>instruction \<in> set (instructions tx). programId instruction \<in> set allowed)"
  proof (cases "find (\<lambda>instruction. programId instruction \<notin> set allowed) (instructions tx)")
    case None
    then have "\<forall>instruction \<in> set (instructions tx). programId instruction \<in> set allowed"
      by (auto simp: find_None_iff)
    then show ?thesis by (simp add: v None)
  next
    case (Some bad)
    then have "bad \<in> set (instructions tx) \<and> programId bad \<notin> set allowed"
      by (auto simp: find_Some_iff)
    with Some show ?thesis by (auto simp: v)
  qed
  fix first
  assume "find (\<lambda>instruction. programId instruction \<notin> set allowed) (instructions tx) = Some first"
  then show "validateTransaction allowed tx = Inl (ProgramNotAllowlisted (programId first))"
    by (simp add: v)
qed

theorem validateTransaction_allowlist_witness:
  "validateTransaction [] \<lparr>instructions = [\<lparr>programId = ''P3''\<rparr>]\<rparr> = Inr () \<and>
   validateTransaction [''P1'', ''P2'']
     \<lparr>instructions = [\<lparr>programId = ''P1''\<rparr>, \<lparr>programId = ''P3''\<rparr>, \<lparr>programId = ''P4''\<rparr>]\<rparr>
     = Inl (ProgramNotAllowlisted ''P3'') \<and>
   validateTransaction [''P1'', ''P2'']
     \<lparr>instructions = [\<lparr>programId = ''P2''\<rparr>, \<lparr>programId = ''P1''\<rparr>]\<rparr> = Inr ()"
  using validateTransaction_allowlist [of "[]" "\<lparr>instructions = [\<lparr>programId = ''P3''\<rparr>]\<rparr>"]
    validateTransaction_allowlist [of "[''P1'', ''P2'']"
      "\<lparr>instructions = [\<lparr>programId = ''P1''\<rparr>, \<lparr>programId = ''P3''\<rparr>, \<lparr>programId = ''P4''\<rparr>]\<rparr>"]
    validateTransaction_allowlist [of "[''P1'', ''P2'']"
      "\<lparr>instructions = [\<lparr>programId = ''P2''\<rparr>, \<lparr>programId = ''P1''\<rparr>]\<rparr>"]
  by simp

section \<open>Properties of the key store\<close>

text \<open>
  C2. \<open>decryptKeypair\<close> is a left inverse of \<open>encryptKeypair\<close> under one passphrase: it
  returns the keypair that was encrypted, public key and secret key bytes alike. The
  hypotheses are the laws of the library primitives on the values at hand: the encoding
  decodes to what was encoded, the decipher with the same key, nonce and tag returns the
  plaintext of the cipher, and \<open>fromSecretKey\<close> rebuilds the keypair from its secret key.
\<close>

theorem decryptKeypair_encryptKeypair:
  assumes enc: "cipher P (deriveKey P passphrase saltBytes) ivBytes (secretKey keypair) =
                  (cipherBytes, tagBytes)"
    and dec: "decipher P (deriveKey P passphrase saltBytes) ivBytes tagBytes cipherBytes =
                Some (secretKey keypair)"
    and b64: "fromBase64 P (toBase64 P ivBytes) = ivBytes"
             "fromBase64 P (toBase64 P saltBytes) = saltBytes"
             "fromBase64 P (toBase64 P tagBytes) = tagBytes"
             "fromBase64 P (toBase64 P cipherBytes) = cipherBytes"
    and key: "fromSecretKey P (secretKey keypair) = Inr keypair"
  shows "decryptKeypair P passphrase
           (encryptKeypair P passphrase ivBytes saltBytes now nm keypair) = Inr keypair"
proof -
  let ?stored = "encryptKeypair P passphrase ivBytes saltBytes now nm keypair"
  have fields: "iv ?stored = toBase64 P ivBytes" "salt ?stored = toBase64 P saltBytes"
    "tag ?stored = toBase64 P tagBytes" "cipherText ?stored = toBase64 P cipherBytes"
    using enc by (simp_all add: encryptKeypair_def Let_def)
  show ?thesis
    unfolding decryptKeypair_def Let_def fields b64 dec using key by simp
qed

theorem decryptKeypair_encryptKeypair_witness:
  "decryptKeypair shiftPrimitives ''pw''
     (encryptKeypair shiftPrimitives ''pw'' [2] [1] ''t0'' ''w1'' keypairA) = Inr keypairA \<and>
   secretKey keypairA = [1, 2, 3, 4]"
proof -
  have "decryptKeypair shiftPrimitives ''pw''
     (encryptKeypair shiftPrimitives ''pw'' [2] [1] ''t0'' ''w1'' keypairA) = Inr keypairA"
    by (rule decryptKeypair_encryptKeypair [where cipherBytes = "[38, 39, 40, 41]"
          and tagBytes = "[45]"])
       (simp_all add: shiftPrimitives_def deriveKey_def KEY_LENGTH_def keypairA_def)
  then show ?thesis by (simp add: keypairA_def)
qed




section \<open>Properties of the submission pipeline\<close>






section \<open>Properties of registration\<close>

lemma walletNames_written:
  "map walletName (readAgents (writeAgents records)) = map walletName records"
  by (simp add: readAgents_def writeAgents_def parse_def stringify_def comp_def)

lemma find_walletName_None:
  "find (\<lambda>a. walletName a = nm) records = None \<longleftrightarrow> nm \<notin> set (map walletName records)"
  by (auto simp: find_None_iff)

lemma spawnAgent_record:
  "fst (spawnAgent S d W strat wName limit) = Inr r \<Longrightarrow>
   walletName r = nullish wName (''agent-'' @ dateNow d) \<and> solSpent r = Some (Num 0) \<and>
   id_of r = randomUUID d \<and> spendingLimit r = Some (nullish limit (DEFAULT_SPENDING_LIMIT S))"
  by (auto simp: spawnAgent_def createWallet_def saveKeypair_def Let_def split: option.splits)

lemma spawnAgent_refused:
  "writeRefused d = Some e \<Longrightarrow> spawnAgent S d W strat wName limit = (Inl e, W)"
  by (simp add: spawnAgent_def createWallet_def saveKeypair_def Let_def)

lemma spawnAgent_names:
  "writeRefused d = None \<Longrightarrow>
   map walletName (readAgents (agentStore (snd (spawnAgent S d W strat wName limit)))) =
     map walletName (readAgents (agentStore W)) @ [nullish wName (''agent-'' @ dateNow d)]"
  by (simp add: spawnAgent_def createWallet_def saveKeypair_def Let_def walletNames_written)

lemma spawnAgent_onePerWallet:
  assumes "onePerWallet W" and "\<not> registered W (nullish wName (''agent-'' @ dateNow d))"
  shows "onePerWallet (snd (spawnAgent S d W strat wName limit))"
proof (cases "writeRefused d")
  case None
  with assms show ?thesis
    by (simp add: onePerWallet_def registered_def find_walletName_None spawnAgent_names)
next
  case (Some e)
  with assms show ?thesis by (simp add: spawnAgent_refused)
qed

lemma promoteWallet_registered:
  assumes "find (\<lambda>a. walletName a = wName) (readAgents (agentStore W)) = Some existing"
  shows "promoteWallet S d W wName strat limit =
           (Inl (WalletAlreadyRegistered wName (id_of existing)), W)"
  using assms by (simp add: promoteWallet_def Let_def)

lemma promoteWallet_onePerWallet:
  assumes "onePerWallet W"
  shows "onePerWallet (snd (promoteWallet S d W wName strat limit))"
proof (cases "find (\<lambda>a. walletName a = wName) (readAgents (agentStore W))")
  case (Some existing)
  with assms show ?thesis by (simp add: promoteWallet_registered)
next
  case None
  then have "wName \<notin> set (map walletName (readAgents (agentStore W)))"
    by (simp add: find_walletName_None)
  with assms None show ?thesis
    by (simp add: promoteWallet_def Let_def onePerWallet_def walletNames_written
        split: sum.splits)
qed

lemma performAll_onePerWallet:
  "onePerWallet W \<Longrightarrow> spawnsUnregistered S rqs W \<Longrightarrow> onePerWallet (performAll S rqs W)"
proof (induction rqs arbitrary: W)
  case Nil
  then show ?case by simp
next
  case (Cons rq rqs)
  obtain q d where rq: "rq = (q, d)" by (cases rq)
  show ?case
  proof (cases q)
    case (Spawn strat wName limit)
    with Cons.prems rq have "onePerWallet (perform S rq W)"
      by (simp add: spawnAgent_onePerWallet)
    moreover from Cons.prems rq Spawn have "spawnsUnregistered S rqs (perform S rq W)"
      by simp
    ultimately show ?thesis using Cons.IH by simp
  next
    case (Promote wName strat limit)
    with Cons.prems rq have "onePerWallet (perform S rq W)"
      by (simp add: promoteWallet_onePerWallet)
    moreover from Cons.prems rq Promote have "spawnsUnregistered S rqs (perform S rq W)"
      by simp
    ultimately show ?thesis using Cons.IH by simp
  qed
qed

text \<open>
  C9 (as amended). When the wallet name already has an agent record, \<open>promoteWallet\<close> fails
  with the duplicate-registration error that names the first such record, and changes
  nothing: no record is written. Hence, from a registry with at most one record per wallet
  name, every sequence of spawn and promote calls in which no spawn names a wallet that is
  registered when the spawn runs (by an earlier spawn or by an earlier promote) leaves at
  most one record per wallet name.
\<close>

theorem promoteWallet_duplicate:
  "(\<forall>existing.
      find (\<lambda>a. walletName a = wName) (readAgents (agentStore W)) = Some existing \<longrightarrow>
      promoteWallet S d W wName strat limit =
        (Inl (WalletAlreadyRegistered wName (id_of existing)), W)) \<and>
   (registered W wName \<longrightarrow>
      (\<exists>other. fst (promoteWallet S d W wName strat limit) =
                 Inl (WalletAlreadyRegistered wName other)) \<and>
      snd (promoteWallet S d W wName strat limit) = W) \<and>
   (onePerWallet W \<and> spawnsUnregistered S rqs W \<longrightarrow> onePerWallet (performAll S rqs W))"
proof (intro conjI allI impI)
  fix existing
  assume "find (\<lambda>a. walletName a = wName) (readAgents (agentStore W)) = Some existing"
  then show "promoteWallet S d W wName strat limit =
      (Inl (WalletAlreadyRegistered wName (id_of existing)), W)"
    by (rule promoteWallet_registered)
next
  assume "registered W wName"
  then obtain existing
    where e: "find (\<lambda>a. walletName a = wName) (readAgents (agentStore W)) = Some existing"
    by (auto simp: registered_def)
  from promoteWallet_registered [OF e]
  show "\<exists>other. fst (promoteWallet S d W wName strat limit) =
      Inl (WalletAlreadyRegistered wName other)"
    by simp
  from promoteWallet_registered [OF e]
  show "snd (promoteWallet S d W wName strat limit) = W" by simp
next
  assume "onePerWallet W \<and> spawnsUnregistered S rqs W"
  then show "onePerWallet (performAll S rqs W)"
    by (simp add: performAll_onePerWallet)
qed

lemmas registration_evaluation =
  promoteWallet_def spawnAgent_def createWallet_def saveKeypair_def loadWallet_def
  loadKeypair_def decryptKeypair_def encryptKeypair_def shiftPrimitives_def deriveKey_def
  KEY_LENGTH_def keypairA_def keypairB_def settingsA_def worldA_def drawnA_def drawnB_def
  readAgents_def writeAgents_def parse_def stringify_def toJSON_def nullish_def Let_def
  registered_def onePerWallet_def

theorem promoteWallet_duplicate_witness:
  "onePerWallet worldA \<and>
   spawnsUnregistered settingsA
     [(Promote ''w1'' ''simple'' None, drawnA), (Spawn ''trading'' (Some ''w2'') None, drawnB),
      (Promote ''w1'' ''simple'' None, drawnB)] worldA \<and>
   onePerWallet (performAll settingsA
     [(Promote ''w1'' ''simple'' None, drawnA), (Spawn ''trading'' (Some ''w2'') None, drawnB),
      (Promote ''w1'' ''simple'' None, drawnB)] worldA) \<and>
   registered (perform settingsA (Promote ''w1'' ''simple'' None, drawnA) worldA) ''w1'' \<and>
   (\<exists>other. fst (promoteWallet settingsA drawnB
                 (perform settingsA (Promote ''w1'' ''simple'' None, drawnA) worldA)
                 ''w1'' ''simple'' None) = Inl (WalletAlreadyRegistered ''w1'' other)) \<and>
   snd (promoteWallet settingsA drawnB
          (perform settingsA (Promote ''w1'' ''simple'' None, drawnA) worldA)
          ''w1'' ''simple'' None) =
     perform settingsA (Promote ''w1'' ''simple'' None, drawnA) worldA"
proof -
  let ?rqs = "[(Promote ''w1'' ''simple'' None, drawnA),
    (Spawn ''trading'' (Some ''w2'') None, drawnB), (Promote ''w1'' ''simple'' None, drawnB)]"
  let ?W1 = "perform settingsA (Promote ''w1'' ''simple'' None, drawnA) worldA"
  have a: "onePerWallet worldA" by (simp add: registration_evaluation)
  have b: "spawnsUnregistered settingsA ?rqs worldA" by (simp add: registration_evaluation)
  have c: "registered ?W1 ''w1''" by (simp add: registration_evaluation)
  note t = promoteWallet_duplicate [of "''w1''" ?W1 settingsA drawnB "''simple''" None]
  note u = promoteWallet_duplicate [of "''w1''" worldA settingsA drawnB "''simple''" None ?rqs]
  from u a b have "onePerWallet (performAll settingsA ?rqs worldA)" by blast
  moreover from t c have "(\<exists>other. fst (promoteWallet settingsA drawnB ?W1 ''w1'' ''simple'' None) =
      Inl (WalletAlreadyRegistered ''w1'' other)) \<and>
      snd (promoteWallet settingsA drawnB ?W1 ''w1'' ''simple'' None) = ?W1"
    by blast
  ultimately show ?thesis using a b c by blast
qed

text \<open>
  The claim as stated fails on the sequence that promotes the wallet \<open>w1\<close> and then spawns
  an agent under the same name: one spawn only, so no name is reused across spawn calls, and
  yet the registry holds two records for \<open>w1\<close>; a further promote of \<open>w1\<close> fails and leaves
  both.
\<close>

theorem promoteWallet_duplicate_counterexample:
  "length (filter (\<lambda>a. walletName a = ''w1'')
     (readAgents (agentStore (performAll settingsA
        [(Promote ''w1'' ''simple'' None, drawnA), (Spawn ''trading'' (Some ''w1'') None, drawnB)]
        worldA)))) = 2 \<and>
   \<not> onePerWallet (performAll settingsA
        [(Promote ''w1'' ''simple'' None, drawnA), (Spawn ''trading'' (Some ''w1'') None, drawnB)]
        worldA) \<and>
   fst (promoteWallet settingsA drawnB
          (performAll settingsA
             [(Promote ''w1'' ''simple'' None, drawnA),
              (Spawn ''trading'' (Some ''w1'') None, drawnB)] worldA)
          ''w1'' ''simple'' None) = Inl (WalletAlreadyRegistered ''w1'' ''a1'') \<and>
   length (filter (\<lambda>a. walletName a = ''w1'')
     (readAgents (agentStore (snd (promoteWallet settingsA drawnB
          (performAll settingsA
             [(Promote ''w1'' ''simple'' None, drawnA),
              (Spawn ''trading'' (Some ''w1'') None, drawnB)] worldA)
          ''w1'' ''simple'' None))))) = 2"
  by (simp add: registration_evaluation)

lemma add_nonnegative:
  assumes mono: "\<forall>x y. x \<le> y \<longrightarrow> lte (rnd x) (rnd y)" and fixed: "rnd s = Num s"
    and pos: "lte (Num 0) amt" and ok: "\<not> gt (add rnd (Num s) amt) (Num l)"
  shows "\<exists>s'. add rnd (Num s) amt = Num s' \<and> s \<le> s'"
proof (cases amt)
  case (Num a)
  with pos have "s \<le> s + a" by (simp add: lte_def)
  with mono have "lte (rnd s) (rnd (s + a))" by blast
  with fixed have "lte (Num s) (rnd (s + a))" by simp
  with ok Num show ?thesis
    by (cases "rnd (s + a)") (simp_all add: add_def lte_def gt_def)
next
  case NaN
  with pos show ?thesis by (simp add: lte_def)
next
  case Infinity
  with ok show ?thesis by (simp add: add_def gt_def)
next
  case NegInfinity
  with pos show ?thesis by (simp add: lte_def)
qed

lemma quarters_mono: "x \<le> y \<Longrightarrow> lte (quarters x) (quarters y)"
proof -
  assume "x \<le> y"
  then have "\<lfloor>4 * x + 1/2\<rfloor> \<le> \<lfloor>4 * y + 1/2\<rfloor>" by (intro floor_mono) simp
  then show ?thesis by (simp add: quarters_def lte_def divide_right_mono)
qed

text \<open>
  C10 (as amended). On a record whose limit in force is a finite number, a \<open>trackSpending\<close>
  call with an amount \<open>\<ge> 0\<close> that succeeds leaves \<open>solSpent\<close> at least where it was, namely
  at the sum as the code computes it in double arithmetic, which is then finite; and the
  record that \<open>spawnAgent\<close> or \<open>promoteWallet\<close> creates starts with \<open>solSpent = 0\<close>. The
  hypotheses on the rounding are the laws of double addition on the values at hand: rounding
  is monotone, and the stored \<open>solSpent\<close>, a double, rounds to itself.
\<close>

theorem trackSpending_monotone:
  "(\<forall>r s l. getAgent store i = Some r \<and> nullish (solSpent r) (Num 0) = Num s \<and>
           nullish (spendingLimit r) dflt = Num l \<and> lte (Num 0) amt \<and>
           (\<forall>x y. x \<le> y \<longrightarrow> lte (rnd x) (rnd y)) \<and> rnd s = Num s \<and>
           fst (trackSpending rnd dflt now store i amt) = Inr () \<longrightarrow>
           (\<exists>r' s'. getAgent (snd (trackSpending rnd dflt now store i amt)) i = Some r' \<and>
                    add rnd (Num s) amt = Num s' \<and> solSpent r' = Some (Num s') \<and> s \<le> s')) \<and>
   (\<forall>r. fst (spawnAgent S d W strat wName limit) = Inr r \<longrightarrow> solSpent r = Some (Num 0)) \<and>
   (\<forall>r. fst (promoteWallet S d W nm strat limit) = Inr r \<longrightarrow> solSpent r = Some (Num 0))"
proof (intro conjI allI impI)
  fix r s l
  assume h: "getAgent store i = Some r \<and> nullish (solSpent r) (Num 0) = Num s \<and>
           nullish (spendingLimit r) dflt = Num l \<and> lte (Num 0) amt \<and>
           (\<forall>x y. x \<le> y \<longrightarrow> lte (rnd x) (rnd y)) \<and> rnd s = Num s \<and>
           fst (trackSpending rnd dflt now store i amt) = Inr ()"
  then have found: "getAgent store i = Some r" and s: "nullish (solSpent r) (Num 0) = Num s"
    and l: "nullish (spendingLimit r) dflt = Num l" by simp_all
  have ok: "\<not> gt (add rnd (nullish (solSpent r) (Num 0)) amt) (nullish (spendingLimit r) dflt)"
  proof
    assume "gt (add rnd (nullish (solSpent r) (Num 0)) amt) (nullish (spendingLimit r) dflt)"
    with found have "fst (trackSpending rnd dflt now store i amt) \<noteq> Inr ()"
      by (simp add: trackSpending_rejects)
    with h show False by simp
  qed
  from h ok s l obtain s' where sum: "add rnd (Num s) amt = Num s'" and le: "s \<le> s'"
    using add_nonnegative [of rnd s amt l] by auto
  from trackSpending_reads [OF found ok, of now] sum s le
  show "\<exists>r' s'. getAgent (snd (trackSpending rnd dflt now store i amt)) i = Some r' \<and>
      add rnd (Num s) amt = Num s' \<and> solSpent r' = Some (Num s') \<and> s \<le> s'"
    by (simp add: toJSON_def)
next
  fix r
  assume "fst (spawnAgent S d W strat wName limit) = Inr r"
  then show "solSpent r = Some (Num 0)" by (simp add: spawnAgent_record)
next
  fix r
  assume "fst (promoteWallet S d W nm strat limit) = Inr r"
  then show "solSpent r = Some (Num 0)"
    by (auto simp: promoteWallet_def Let_def split: option.splits sum.splits)
qed

theorem trackSpending_monotone_witness:
  "getAgent (writeAgents [agentA\<lparr>solSpent := Some (Num (1/2))\<rparr>]) ''a1'' =
     Some (agentA\<lparr>solSpent := Some (Num (1/2))\<rparr>) \<and>
   lte (Num 0) (Num (1/16)) \<and> quarters (1/2) = Num (1/2) \<and>
   fst (trackSpending quarters (Num 1) ''t1''
          (writeAgents [agentA\<lparr>solSpent := Some (Num (1/2))\<rparr>]) ''a1'' (Num (1/16))) = Inr () \<and>
   (\<exists>r'. getAgent (snd (trackSpending quarters (Num 1) ''t1''
                           (writeAgents [agentA\<lparr>solSpent := Some (Num (1/2))\<rparr>]) ''a1''
                           (Num (1/16)))) ''a1'' = Some r' \<and>
         solSpent r' = Some (Num (1/2))) \<and>
   (\<exists>r'. getAgent (snd (trackSpending exact (Num 1) ''t1''
                           (writeAgents [agentA\<lparr>solSpent := Some (Num (1/2))\<rparr>]) ''a1''
                           (Num (1/4)))) ''a1'' = Some r' \<and>
         solSpent r' = Some (Num (3/4))) \<and>
   (\<exists>r. fst (spawnAgent settingsA drawnB worldA ''simple'' None None) = Inr r \<and>
        solSpent r = Some (Num 0))"
proof -
  let ?half = "agentA\<lparr>solSpent := Some (Num (1/2))\<rparr>"
  let ?store = "writeAgents [?half]"
  have f: "getAgent ?store ''a1'' = Some ?half"
    by (simp add: spending_evaluation)
  have s: "nullish (solSpent ?half) (Num 0) = Num (1/2)"
    "nullish (spendingLimit ?half) (Num 1) = Num 1"
    by (simp_all add: spending_evaluation)
  have p: "lte (Num 0) (Num (1/16))" "lte (Num 0) (Num (1/4))" by (simp_all add: lte_def)
  have q: "quarters (1/2) = Num (1/2)" "exact (1/2) = Num (1/2)"
    by (simp_all add: quarters_def exact_def)
  have m: "\<forall>x y. x \<le> y \<longrightarrow> lte (quarters x) (quarters y)"
    by (simp add: quarters_mono)
  have n: "\<forall>x y. x \<le> y \<longrightarrow> lte (exact x) (exact y)"
    by (simp add: exact_def lte_def)
  have g: "fst (trackSpending quarters (Num 1) ''t1'' ?store ''a1'' (Num (1/16))) = Inr ()"
    "fst (trackSpending exact (Num 1) ''t1'' ?store ''a1'' (Num (1/4))) = Inr ()"
    by (simp_all add: trackSpending_def updateAgent_def spending_evaluation Let_def)
  note t = trackSpending_monotone [of ?store "''a1''" "Num 1" "Num (1/16)" quarters "''t1''"
      settingsA drawnB worldA "''simple''" None None]
  note u = trackSpending_monotone [of ?store "''a1''" "Num 1" "Num (1/4)" exact "''t1''"
      settingsA drawnB worldA "''simple''" None None]
  from t f s p q m g
  have "\<exists>r' s'. getAgent (snd (trackSpending quarters (Num 1) ''t1'' ?store ''a1''
      (Num (1/16)))) ''a1'' = Some r' \<and> add quarters (Num (1/2)) (Num (1/16)) = Num s' \<and>
      solSpent r' = Some (Num s') \<and> 1/2 \<le> s'"
    by blast
  then have 1: "\<exists>r'. getAgent (snd (trackSpending quarters (Num 1) ''t1'' ?store ''a1''
      (Num (1/16)))) ''a1'' = Some r' \<and> solSpent r' = Some (Num (1/2))"
    by (auto simp: add_def quarters_def)
  from u f s p q n g
  have "\<exists>r' s'. getAgent (snd (trackSpending exact (Num 1) ''t1'' ?store ''a1''
      (Num (1/4)))) ''a1'' = Some r' \<and> add exact (Num (1/2)) (Num (1/4)) = Num s' \<and>
      solSpent r' = Some (Num s') \<and> 1/2 \<le> s'"
    by blast
  then have 2: "\<exists>r'. getAgent (snd (trackSpending exact (Num 1) ''t1'' ?store ''a1''
      (Num (1/4)))) ''a1'' = Some r' \<and> solSpent r' = Some (Num (3/4))"
    by (auto simp: add_def exact_def)
  have "\<exists>r. fst (spawnAgent settingsA drawnB worldA ''simple'' None None) = Inr r"
    by (simp add: spawnAgent_def createWallet_def saveKeypair_def Let_def drawnB_def)
  with t have 3: "\<exists>r. fst (spawnAgent settingsA drawnB worldA ''simple'' None None) = Inr r \<and>
      solSpent r = Some (Num 0)"
    by blast
  from f p q g 1 2 3 show ?thesis by blast
qed

text \<open>
  The claim as stated, for every amount, fails on a negative one: the call succeeds and
  \<open>solSpent\<close> goes down from \<open>0\<close> to \<open>-1/2\<close>. It also fails on the amount \<^verbatim>\<open>Infinity\<close> for a
  record without a limit of its own when the default limit is \<^verbatim>\<open>Infinity\<close>: the call
  succeeds, the file receives \<^verbatim>\<open>null\<close>, and \<open>solSpent\<close> goes from \<open>1/2\<close> to absent, read as \<open>0\<close>.
\<close>

theorem trackSpending_monotone_counterexample:
  "getAgent (writeAgents [agentA]) ''a1'' = Some agentA \<and> solSpent agentA = Some (Num 0) \<and>
   fst (trackSpending exact (Num 1) ''t1'' (writeAgents [agentA]) ''a1'' (Num (-1/2))) = Inr () \<and>
   getAgent (snd (trackSpending exact (Num 1) ''t1'' (writeAgents [agentA]) ''a1''
                    (Num (-1/2)))) ''a1'' =
     Some (agentA\<lparr>solSpent := Some (Num (-1/2)), lastUpdated := Some ''t1''\<rparr>) \<and>
   (-1/2 :: real) < 0 \<and>
   lte (Num 0) Infinity \<and>
   getAgent (writeAgents [agentA\<lparr>solSpent := Some (Num (1/2)), spendingLimit := None\<rparr>]) ''a1'' =
     Some (agentA\<lparr>solSpent := Some (Num (1/2)), spendingLimit := None\<rparr>) \<and>
   fst (trackSpending exact Infinity ''t2''
          (writeAgents [agentA\<lparr>solSpent := Some (Num (1/2)), spendingLimit := None\<rparr>])
          ''a1'' Infinity) = Inr () \<and>
   getAgent (snd (trackSpending exact Infinity ''t2''
                    (writeAgents [agentA\<lparr>solSpent := Some (Num (1/2)), spendingLimit := None\<rparr>])
                    ''a1'' Infinity)) ''a1'' =
     Some (agentA\<lparr>solSpent := None, spendingLimit := None, lastUpdated := Some ''t2''\<rparr>)"
  by (simp add: trackSpending_def updateAgent_def spending_evaluation Let_def)

section \<open>Properties of the loops\<close>

lemma meanwhile_Nil [simp]: "meanwhile [] W = W"
  by (simp add: meanwhile_def)

lemma upt_ceiling_Cons:
  "real i < x \<Longrightarrow> [i..<nat \<lceil>x\<rceil>] = i # [Suc i..<nat \<lceil>x\<rceil>]"
  by (rule upt_conv_Cons) linarith

lemma upt_ceiling_Nil: "\<not> real i < x \<Longrightarrow> [i..<nat \<lceil>x\<rceil>] = []"
  by simp


lemma logFailure_reported:
  "logFailure label a W = W\<lparr>console := console W @ reported [(label, a)]\<rparr>"
  by (cases a) (simp_all add: logFailure_def)



lemma tradingLoop_done:
  "\<not> (real i < iterations config \<and> running (objects W ! this)) \<Longrightarrow>
   tradingLoop P env config this i mockPrice signatures W = (signatures, W)"
  by (subst tradingLoop.simps) auto

lemma tradingLoop_step:
  "real i < iterations config \<Longrightarrow> running (objects W ! this) \<Longrightarrow>
   a = tradeAttempt P (env i) config (mockPrice * (0.95 + roll (env i) * 0.1)) \<Longrightarrow>
   tradingLoop P env config this i mockPrice signatures W =
     tradingLoop P env config this (Suc i) (mockPrice * (0.95 + roll (env i) * 0.1))
       (push a signatures)
       (pacing config this (env i) i
          (logFailure ''Trade execution failed:'' a
             (if awaited a then meanwhile (duringAction (env i)) W else W)))"
  by (subst tradingLoop.simps) (simp add: Let_def)


lemma liquidityLoop_done:
  "\<not> (real i < iterations config \<and> running (objects W ! this)) \<Longrightarrow>
   liquidityLoop P env config this i signatures W = (Inr signatures, W)"
  by (subst liquidityLoop.simps) auto

lemma liquidityLoop_fails:
  "real i < iterations config \<Longrightarrow> running (objects W ! this) \<Longrightarrow>
   getSplBalances (env i) = Inl e \<Longrightarrow>
   liquidityLoop P env config this i signatures W =
     (Inl e, meanwhile (duringAction (env i)) W)"
  by (subst liquidityLoop.simps) simp

lemma liquidityLoop_step:
  "real i < iterations config \<Longrightarrow> running (objects W ! this) \<Longrightarrow>
   getSplBalances (env i) = Inr balances \<Longrightarrow>
   liquidityLoop P env config this i signatures W =
     liquidityLoop P env config this (Suc i)
       (push (liquidityAttemptAt P env config i) signatures)
       (pacing config this (env i) i
          (logFailure (liquidityLabel config (balanceAt P env config i))
             (liquidityAttemptAt P env config i)
             (meanwhile (duringAction (env i)) W)))"
  by (subst liquidityLoop.simps) (simp add: Let_def liquidityAttemptAt_def balanceAt_def)




lemmas loop_evaluation =
  steady_def secondFails_def holding_def stopDuringFirst_def threeTransfers_def threeTrades_def
  threeDeposits_def threeSales_def threeWithdrawals_def tradeAttemptAt_def tradeAttempt_def
  evaluateMarket_def liquidityAttemptAt_def liquidityAttempt_def balanceAt_def balanceOf_def
  evaluateBalance_def liquidityLabel_def outcome_def calmEnv_def hasStop_def setRunning_def
  burnAddress_def shiftPrimitives_def awaited_def

lemmas world_evaluation =
  worldB_def registration_evaluation getAgent_def runAgentLoop_def register_def complete_def
  loopOptions_def tradingConfig_def liquidityConfig_def



section \<open>Cancellation\<close>

lemma stopAgent_runningAgents:
  "runningAgents (snd (stopAgent W j now)) = (runningAgents W)(j := None)"
  by (auto simp: stopAgent_def Let_def split_beta split: option.splits)

lemma stopAgent_objects:
  "objects (snd (stopAgent W j now)) =
     (case runningAgents W j of
        None \<Rightarrow> objects W
      | Some entry \<Rightarrow>
          if hasStop (objects W ! runner entry)
          then (objects W)[runner entry := stop (objects W ! runner entry)]
          else objects W)"
  by (auto simp: stopAgent_def Let_def split_beta split: option.splits)

lemma running_stop: "\<not> running (stop r)"
  by (cases r) (simp_all add: running_def stop_def setRunning_def)

lemma hasStop_stop: "hasStop (stop r) = hasStop r"
  by (cases r) (simp_all add: hasStop_def stop_def setRunning_def)

lemma running_update_stop:
  "this < length xs \<Longrightarrow> running (xs[a := stop (xs ! a)] ! this) \<longleftrightarrow>
     running (xs ! this) \<and> a \<noteq> this"
  by (cases "a = this") (simp_all add: running_stop)

lemma hasStop_update_stop:
  "this < length xs \<Longrightarrow> hasStop (xs[a := stop (xs ! a)] ! this) = hasStop (xs ! this)"
  by (cases "a = this") (simp_all add: hasStop_stop)

lemma stopAgent_length: "length (objects (snd (stopAgent W j now))) = length (objects W)"
  by (simp add: stopAgent_objects split: option.splits)

lemma stopAgent_keeps_stopped:
  "this < length (objects W) \<Longrightarrow> \<not> running (objects W ! this) \<Longrightarrow>
   \<not> running (objects (snd (stopAgent W j now)) ! this)"
  by (auto simp: stopAgent_objects running_update_stop split: option.splits)

lemma stopAgent_stops:
  "attached W i this \<Longrightarrow> \<not> running (objects (snd (stopAgent W i now)) ! this)"
  by (auto simp: attached_def stopAgent_objects running_update_stop split: option.splits)

lemma attached_stopAgent:
  "attached W i this \<Longrightarrow> attached (snd (stopAgent W j now)) i this"
  unfolding attached_def stopAgent_length stopAgent_runningAgents
  by (auto simp: stopAgent_objects running_update_stop hasStop_update_stop split: option.splits)

lemma meanwhile_Cons:
  "meanwhile (c # calls) W = meanwhile calls (snd (stopAgent W (fst c) (snd c)))"
  by (simp add: meanwhile_def split_beta)

lemma attached_meanwhile: "attached W i this \<Longrightarrow> attached (meanwhile calls W) i this"
  by (induction calls arbitrary: W) (simp_all add: meanwhile_Cons attached_stopAgent)

lemma meanwhile_length: "length (objects (meanwhile calls W)) = length (objects W)"
  by (induction calls arbitrary: W) (simp_all add: meanwhile_Cons stopAgent_length)

lemma meanwhile_keeps_stopped:
  "this < length (objects W) \<Longrightarrow> \<not> running (objects W ! this) \<Longrightarrow>
   \<not> running (objects (meanwhile calls W) ! this)"
  by (induction calls arbitrary: W)
     (simp_all add: meanwhile_Cons stopAgent_keeps_stopped stopAgent_length)

lemma meanwhile_stops:
  "attached W i this \<Longrightarrow> (i, now) \<in> set calls \<Longrightarrow>
   \<not> running (objects (meanwhile calls W) ! this)"
proof (induction calls arbitrary: W)
  case Nil
  then show ?case by simp
next
  case (Cons c calls)
  let ?W = "snd (stopAgent W (fst c) (snd c))"
  have att: "attached ?W i this" using Cons.prems(1) by (rule attached_stopAgent)
  show ?case
  proof (cases "c = (i, now)")
    case True
    then have "\<not> running (objects ?W ! this)"
      using stopAgent_stops [OF Cons.prems(1), of now] by simp
    moreover have "this < length (objects ?W)" using att by (simp add: attached_def)
    ultimately show ?thesis by (simp add: meanwhile_Cons meanwhile_keeps_stopped)
  next
    case False
    with Cons.prems(2) have "(i, now) \<in> set calls" by simp
    from Cons.IH [OF att this] show ?thesis by (simp add: meanwhile_Cons)
  qed
qed

lemma attached_logFailure: "attached (logFailure label a W) i this = attached W i this"
  by (simp add: logFailure_reported attached_def)

lemma objects_logFailure: "objects (logFailure label a W) = objects W"
  by (simp add: logFailure_reported)

lemma attached_pacing: "attached W i this \<Longrightarrow> attached (pacing config that it n W) i this"
  by (simp add: pacing_def attached_meanwhile)

lemma pacing_stopped:
  "\<not> running (objects W ! this) \<Longrightarrow> pacing config this it n W = W"
  by (simp add: pacing_def)

lemma length_push: "length (push a signatures) \<le> Suc (length signatures)"
  by (cases a) (simp_all add: push_def)

lemma tradingLoop_stopped:
  "attached W ag this \<Longrightarrow> (ag, now) \<in> set (duringAction (env k)) \<Longrightarrow>
   awaited (tradeAttemptAt P env config k) \<Longrightarrow> k - i = d \<Longrightarrow> i \<le> k \<Longrightarrow>
   length (fst (tradingLoop P env config this i (priceAt env i) signatures W))
     \<le> length signatures + (Suc k - i)"
proof (induction d arbitrary: i signatures W)
  case 0
  then have ik: "i = k" by simp
  show ?case
  proof (cases "real i < iterations config \<and> running (objects W ! this)")
    case False
    then show ?thesis by (simp add: tradingLoop_done)
  next
    case True
    let ?a = "tradeAttemptAt P env config i"
    let ?W0 = "meanwhile (duringAction (env i)) W"
    let ?W1 = "logFailure ''Trade execution failed:'' ?a ?W0"
    have a: "awaited ?a" using "0.prems"(3) ik by simp
    have "\<not> running (objects ?W0 ! this)"
      using meanwhile_stops [OF "0.prems"(1)] "0.prems"(2) ik by simp
    then have stopped: "\<not> running (objects ?W1 ! this)" by (simp add: objects_logFailure)
    have "tradingLoop P env config this i (priceAt env i) signatures W =
        tradingLoop P env config this (Suc i) (priceAt env (Suc i)) (push ?a signatures)
          (pacing config this (env i) i ?W1)"
      using tradingLoop_step [of i config W this ?a P env "priceAt env i" signatures] True a
      by (simp add: tradeAttemptAt_def)
    also have "\<dots> = (push ?a signatures, ?W1)"
      using stopped by (simp add: pacing_stopped tradingLoop_done)
    finally show ?thesis using length_push [of ?a signatures] ik by simp
  qed
next
  case (Suc d)
  then have lt: "i < k" by simp
  show ?case
  proof (cases "real i < iterations config \<and> running (objects W ! this)")
    case False
    then show ?thesis by (simp add: tradingLoop_done)
  next
    case True
    let ?a = "tradeAttemptAt P env config i"
    let ?W0 = "if awaited ?a then meanwhile (duringAction (env i)) W else W"
    let ?W2 = "pacing config this (env i) i (logFailure ''Trade execution failed:'' ?a ?W0)"
    have att: "attached ?W2 ag this"
      using Suc.prems(1) by (simp add: attached_pacing attached_logFailure attached_meanwhile)
    have step: "tradingLoop P env config this i (priceAt env i) signatures W =
        tradingLoop P env config this (Suc i) (priceAt env (Suc i)) (push ?a signatures) ?W2"
      using tradingLoop_step [of i config W this ?a P env "priceAt env i" signatures] True
      by (simp add: tradeAttemptAt_def)
    have "k - Suc i = d" "Suc i \<le> k" using Suc.prems(4) lt by simp_all
    from Suc.IH [OF att Suc.prems(2,3) this, of "push ?a signatures"]
    show ?thesis
      unfolding step using length_push [of ?a signatures] lt by simp
  qed
qed

lemma liquidityLoop_stopped:
  "attached W ag this \<Longrightarrow> (ag, now) \<in> set (duringAction (env k)) \<Longrightarrow>
   \<forall>j\<le>k. \<exists>balances. getSplBalances (env j) = Inr balances \<Longrightarrow> k - i = d \<Longrightarrow> i \<le> k \<Longrightarrow>
   \<exists>sigs V. liquidityLoop P env config this i signatures W = (Inr sigs, V) \<and>
            length sigs \<le> length signatures + (Suc k - i)"
proof (induction d arbitrary: i signatures W)
  case 0
  then have ik: "i = k" by simp
  show ?case
  proof (cases "real i < iterations config \<and> running (objects W ! this)")
    case False
    then show ?thesis by (simp add: liquidityLoop_done)
  next
    case True
    let ?a = "liquidityAttemptAt P env config i"
    let ?l = "liquidityLabel config (balanceAt P env config i)"
    let ?W0 = "meanwhile (duringAction (env i)) W"
    let ?W1 = "logFailure ?l ?a ?W0"
    obtain balances where b: "getSplBalances (env i) = Inr balances"
      using "0.prems"(3) ik by blast
    have "\<not> running (objects ?W0 ! this)"
      using meanwhile_stops [OF "0.prems"(1)] "0.prems"(2) ik by simp
    then have stopped: "\<not> running (objects ?W1 ! this)" by (simp add: objects_logFailure)
    have "liquidityLoop P env config this i signatures W =
        liquidityLoop P env config this (Suc i) (push ?a signatures)
          (pacing config this (env i) i ?W1)"
      using liquidityLoop_step [of i config W this env balances P signatures] True b
      by simp
    also have "\<dots> = (Inr (push ?a signatures), ?W1)"
      using stopped by (simp add: pacing_stopped liquidityLoop_done)
    finally show ?thesis using length_push [of ?a signatures] ik by simp
  qed
next
  case (Suc d)
  then have lt: "i < k" by simp
  show ?case
  proof (cases "real i < iterations config \<and> running (objects W ! this)")
    case False
    then show ?thesis by (simp add: liquidityLoop_done)
  next
    case True
    let ?a = "liquidityAttemptAt P env config i"
    let ?l = "liquidityLabel config (balanceAt P env config i)"
    let ?W2 = "pacing config this (env i) i
                 (logFailure ?l ?a (meanwhile (duringAction (env i)) W))"
    obtain balances where b: "getSplBalances (env i) = Inr balances"
    proof -
      have "i \<le> k" using lt by simp
      with Suc.prems(3) show ?thesis using that by blast
    qed
    have att: "attached ?W2 ag this"
      using Suc.prems(1) by (simp add: attached_pacing attached_logFailure attached_meanwhile)
    have step: "liquidityLoop P env config this i signatures W =
        liquidityLoop P env config this (Suc i) (push ?a signatures) ?W2"
      using liquidityLoop_step [of i config W this env balances P signatures] True b
      by simp
    have "k - Suc i = d" "Suc i \<le> k" using Suc.prems(4) lt by simp_all
    from Suc.IH [OF att Suc.prems(2,3) this, of "push ?a signatures"]
    obtain sigs V where r: "liquidityLoop P env config this (Suc i) (push ?a signatures) ?W2
        = (Inr sigs, V)" and l: "length sigs \<le> length (push ?a signatures) + (Suc k - Suc i)"
      by blast
    show ?thesis
      unfolding step r using l length_push [of ?a signatures] lt by simp
  qed
qed

lemma runSolTransferLoop_done:
  "\<not> real i < iterations options \<Longrightarrow>
   runSolTransferLoop env options i signatures W = (Inr signatures, W)"
  by (subst runSolTransferLoop.simps) simp

lemma runSolTransferLoop_hold:
  "real i < iterations options \<Longrightarrow> \<not> roll (env i) \<ge> holdProbability options \<Longrightarrow>
   runSolTransferLoop env options i signatures W =
     runSolTransferLoop env options (Suc i) signatures
       (if intervalMs options > 0 \<and> real i < iterations options - 1
        then meanwhile (duringSleep (env i)) W else W)"
  by (subst runSolTransferLoop.simps) simp

lemma runSolTransferLoop_fail:
  "real i < iterations options \<Longrightarrow> roll (env i) \<ge> holdProbability options \<Longrightarrow>
   transferSol (env i) = Inl e \<Longrightarrow>
   runSolTransferLoop env options i signatures W = (Inl e, meanwhile (duringAction (env i)) W)"
  by (subst runSolTransferLoop.simps) simp

lemma runSolTransferLoop_send:
  "real i < iterations options \<Longrightarrow> roll (env i) \<ge> holdProbability options \<Longrightarrow>
   transferSol (env i) = Inr signature \<Longrightarrow>
   runSolTransferLoop env options i signatures W =
     runSolTransferLoop env options (Suc i) (signatures @ [signature])
       (if intervalMs options > 0 \<and> real i < iterations options - 1
        then meanwhile (duringSleep (env i)) (meanwhile (duringAction (env i)) W)
        else meanwhile (duringAction (env i)) W)"
  by (subst runSolTransferLoop.simps) simp

lemma runSolTransferLoop_ignores_world:
  "nat \<lceil>iterations options\<rceil> - i = d \<Longrightarrow>
   fst (runSolTransferLoop env options i signatures W) =
   fst (runSolTransferLoop env options i signatures V)"
proof (induction d arbitrary: i signatures W V)
  case 0
  then have "\<not> real i < iterations options" by linarith
  then show ?case by (simp add: runSolTransferLoop_done)
next
  case (Suc d)
  then have n: "nat \<lceil>iterations options\<rceil> - Suc i = d" by simp
  from Suc.prems have lt: "real i < iterations options" by linarith
  show ?case
  proof (cases "roll (env i) \<ge> holdProbability options")
    case False
    show ?thesis
      unfolding runSolTransferLoop_hold [where env = env and i = i, OF lt False] by (rule Suc.IH [OF n])
  next
    case True
    show ?thesis
    proof (cases "transferSol (env i)")
      case (Inl e)
      show ?thesis unfolding runSolTransferLoop_fail [where env = env and i = i, OF lt True Inl] by simp
    next
      case (Inr signature)
      show ?thesis
        unfolding runSolTransferLoop_send [where env = env and i = i, OF lt True Inr] by (rule Suc.IH [OF n])
    qed
  qed
qed

lemma attached_register:
  "hasStop r \<Longrightarrow>
   attached ((register W i r strat)
       \<lparr>objects := (objects (register W i r strat))
          [length (objects W) := setRunning True (objects (register W i r strat) ! length (objects W))]\<rparr>)
     i (length (objects W))"
  by (cases r) (simp_all add: attached_def register_def hasStop_def setRunning_def)

lemma runTradingAgent_stopped:
  assumes "getAgent (agentStore W) i = Some record"
    and "loadWallet (prims S) (KEYSTORE_PASSPHRASE S) (keys W) (KEYSTORE_DIR S)
           (walletName record) = Inr wallet"
    and "(i, now) \<in> set (duringAction (env k))"
    and "awaited (tradeAttemptAt (prims S) env (tradingConfig topts) k)"
  shows "\<exists>signatures. fst (runTradingAgent S env W i topts) = Inr signatures \<and>
                      length signatures \<le> Suc k"
proof -
  let ?me = "length (objects W)"
  let ?R = "register W i (TradingAgent False) ''trading''"
  let ?W1 = "?R\<lparr>objects := (objects ?R)[?me := setRunning True (objects ?R ! ?me)]\<rparr>"
  let ?run = "tradingLoop (prims S) env (tradingConfig topts) ?me 0 1 [] ?W1"
  have att: "attached ?W1 i ?me"
    by (rule attached_register) (simp add: hasStop_def)
  have run: "runTradingAgent S env W i topts =
      (Inr (fst ?run), complete (snd ?run) i (fst ?run))"
    using assms(1,2) by (simp add: runTradingAgent_def TradingAgent_run_def Let_def split_beta)
  from assms(3,4) tradingLoop_stopped [OF att, of now env k "prims S" "tradingConfig topts" 0 k "[]"]
  have "length (fst ?run) \<le> Suc k" by simp
  then show ?thesis by (simp add: run)
qed

lemma runLiquidityAgent_stopped:
  assumes "getAgent (agentStore W) i = Some record"
    and "loadWallet (prims S) (KEYSTORE_PASSPHRASE S) (keys W) (KEYSTORE_DIR S)
           (walletName record) = Inr wallet"
    and "(i, now) \<in> set (duringAction (env k))"
    and b: "\<forall>j\<le>k. \<exists>balances. getSplBalances (env j) = Inr balances"
  shows "\<exists>signatures. fst (runLiquidityAgent S env W i lopts) = Inr signatures \<and>
                      length signatures \<le> Suc k"
proof -
  let ?me = "length (objects W)"
  let ?R = "register W i (LiquidityAgent False) ''liquidity''"
  let ?W1 = "?R\<lparr>objects := (objects ?R)[?me := setRunning True (objects ?R ! ?me)]\<rparr>"
  have att: "attached ?W1 i ?me"
    by (rule attached_register) (simp add: hasStop_def)
  from assms(3) liquidityLoop_stopped [where P = "prims S" and config = "liquidityConfig lopts"
      and i = 0 and d = k and signatures = "[]" and now = now, OF att _ b]
  obtain sigs V where r: "liquidityLoop (prims S) env (liquidityConfig lopts) ?me 0 [] ?W1 =
      (Inr sigs, V)" and l: "length sigs \<le> Suc k"
    by auto
  have "runLiquidityAgent S env W i lopts = (Inr sigs, complete V i sigs)"
    using assms(1,2) r by (simp add: runLiquidityAgent_def LiquidityAgent_run_def Let_def)
  with l show ?thesis by simp
qed

lemma stopAgent_simple:
  "runningAgents W i = Some entry \<Longrightarrow> objects W ! runner entry = SimpleAgentRunner \<Longrightarrow>
   objects (snd (stopAgent W i now)) = objects W \<and> \<not> isRunning (snd (stopAgent W i now)) i"
  by (simp add: stopAgent_objects stopAgent_runningAgents hasStop_def isRunning_def)

lemma runAgentLoop_completes:
  "fst (runAgentLoop S env W i opts) = Inr signatures \<Longrightarrow>
   \<not> isRunning (snd (runAgentLoop S env W i opts)) i"
  by (auto simp: runAgentLoop_def Let_def isRunning_def complete_def
      split: option.splits sum.splits prod.splits)

lemmas run_evaluation =
  world_evaluation loop_evaluation tenTransfers_def tenTrades_def tenDeposits_def
  runTradingAgent_def runLiquidityAgent_def TradingAgent_run_def LiquidityAgent_run_def

lemma worldB_agent:
  "getAgent (agentStore worldB) ''a1'' =
     Some \<lparr>id_of = ''a1'', walletName = ''w1'', walletAddress = map char_of [3::nat, 4],
           strategy = ''simple'', createdAt = ''t1'', splBalances = None,
           solSpent = Some (Num 0), spendingLimit = Some (Num 1), lastUpdated = Some ''t1''\<rparr>"
  by (simp add: world_evaluation)

lemma worldB_wallet:
  "loadWallet (prims settingsA) (KEYSTORE_PASSPHRASE settingsA) (keys worldB)
     (KEYSTORE_DIR settingsA) ''w1'' = Inr keypairA"
  by (simp add: world_evaluation)

lemma runSolTransferLoop_all_sent:
  "\<forall>j. holdProbability options \<le> roll (env j) \<and> transferSol (env j) = Inr (sig j) \<Longrightarrow>
   nat \<lceil>iterations options\<rceil> - i = d \<Longrightarrow>
   fst (runSolTransferLoop env options i signatures W) =
     Inr (signatures @ map sig [i..<nat \<lceil>iterations options\<rceil>])"
proof (induction d arbitrary: i signatures W)
  case 0
  then have "\<not> real i < iterations options" by linarith
  then show ?case by (simp add: runSolTransferLoop_done upt_ceiling_Nil)
next
  case (Suc d)
  then have n: "nat \<lceil>iterations options\<rceil> - Suc i = d" by simp
  from Suc.prems have lt: "real i < iterations options" by linarith
  from Suc.prems(1) have r: "holdProbability options \<le> roll (env i)"
    and t: "transferSol (env i) = Inr (sig i)" by simp_all
  show ?case
    unfolding runSolTransferLoop_send [where env = env and i = i, OF lt r t]
      Suc.IH [OF Suc.prems(1) n] upt_ceiling_Cons [OF lt]
    by simp
qed

lemma runAgentLoop_result:
  "getAgent (agentStore W) i = Some record \<Longrightarrow>
   loadWallet (prims S) (KEYSTORE_PASSPHRASE S) (keys W) (KEYSTORE_DIR S) (walletName record) =
     Inr wallet \<Longrightarrow>
   fst (runAgentLoop S env W i opts) =
     fst (runSolTransferLoop env (loopOptions opts) 0 []
            (register W i SimpleAgentRunner ''simple_transfer''))"
  by (simp add: runAgentLoop_def Let_def split: prod.splits sum.splits)

text \<open>
  C8. Every loop, the simple transfer loop included, is to observe a stop request at the top
  of each iteration and before each pacing sleep, so that a run of ten iterations without
  pacing that is stopped during its first action returns fewer than ten identifiers and
  leaves the agent out of the map of running agents. The trading and the liquidity loop do
  so. The simple transfer loop does not: its runner has no flag and no \<^verbatim>\<open>stop\<close> method, and
  \<open>stopAgent\<close> only deletes its entry. At this input \<open>runAgentLoop\<close> returns all ten
  identifiers, where \<open>runTradingAgent\<close> and \<open>runLiquidityAgent\<close> return fewer than ten.
\<close>

theorem runAgentLoop_ignores_stop:
  "(''a1'', ''t5'') \<in> set (duringAction (stopDuringFirst 0)) \<and>
   iterations (loopOptions tenTransfers) = 10 \<and> intervalMs (loopOptions tenTransfers) = 0 \<and>
   fst (runAgentLoop settingsA stopDuringFirst worldB ''a1'' tenTransfers) =
     Inr (replicate 10 ''sent'') \<and>
   length (replicate 10 ''sent'') = 10 \<and>
   \<not> isRunning (snd (runAgentLoop settingsA stopDuringFirst worldB ''a1'' tenTransfers)) ''a1'' \<and>
   (\<exists>signatures. fst (runTradingAgent settingsA stopDuringFirst worldB ''a1'' tenTrades) =
                    Inr signatures \<and> length signatures < 10) \<and>
   (\<exists>signatures. fst (runLiquidityAgent settingsA stopDuringFirst worldB ''a1'' tenDeposits) =
                    Inr signatures \<and> length signatures < 10)"
proof -
  have s: "(''a1'', ''t5'') \<in> set (duringAction (stopDuringFirst 0))"
    by (simp add: stopDuringFirst_def steady_def)
  have w: "loadWallet (prims settingsA) (KEYSTORE_PASSPHRASE settingsA) (keys worldB)
      (KEYSTORE_DIR settingsA)
      (walletName \<lparr>id_of = ''a1'', walletName = ''w1'', walletAddress = map char_of [3::nat, 4],
           strategy = ''simple'', createdAt = ''t1'', splBalances = None,
           solSpent = Some (Num 0), spendingLimit = Some (Num 1), lastUpdated = Some ''t1''\<rparr>) =
      Inr keypairA"
    using worldB_wallet by simp
  have "fst (runAgentLoop settingsA stopDuringFirst worldB ''a1'' tenTransfers) =
     fst (runSolTransferLoop stopDuringFirst (loopOptions tenTransfers) 0 []
            (register worldB ''a1'' SimpleAgentRunner ''simple_transfer''))"
    by (rule runAgentLoop_result [OF worldB_agent w])
  also have "\<dots> = Inr ([] @ map (\<lambda>j. ''sent'')
      [0..<nat \<lceil>iterations (loopOptions tenTransfers)\<rceil>])"
    by (rule runSolTransferLoop_all_sent [OF _ refl]) (simp add: run_evaluation)
  also have "\<dots> = Inr (replicate 10 ''sent'')"
    by (simp add: run_evaluation upt_rec_numeral eval_nat_numeral)
  finally have ten: "fst (runAgentLoop settingsA stopDuringFirst worldB ''a1'' tenTransfers) =
     Inr (replicate 10 ''sent'')" .
  then have gone:
    "\<not> isRunning (snd (runAgentLoop settingsA stopDuringFirst worldB ''a1'' tenTransfers)) ''a1''"
    by (rule runAgentLoop_completes)
  have a: "awaited (tradeAttemptAt (prims settingsA) stopDuringFirst (tradingConfig tenTrades) 0)"
    by (simp add: run_evaluation)
  have b: "\<forall>j\<le>0. \<exists>balances. getSplBalances (stopDuringFirst j) = Inr balances"
    by (simp add: stopDuringFirst_def steady_def)
  from runTradingAgent_stopped [OF worldB_agent w s a]
  have trading: "\<exists>signatures. fst (runTradingAgent settingsA stopDuringFirst worldB ''a1''
      tenTrades) = Inr signatures \<and> length signatures < 10"
    by force
  from runLiquidityAgent_stopped [OF worldB_agent w s b, where lopts = tenDeposits]
  have liquidity: "\<exists>signatures. fst (runLiquidityAgent settingsA stopDuringFirst worldB ''a1''
      tenDeposits) = Inr signatures \<and> length signatures < 10"
    by force
  from s ten gone trading liquidity show ?thesis
    by (simp add: loopOptions_def tenTransfers_def nullish_def)
qed

section \<open>Starting a run for an agent that is running\<close>

text \<open>
  C6. For an agent id that is in the map of running agents, a run operation should be refused
  or queued. The code does neither: in \<open>worldC\<close> the agent \<open>a1\<close> has a trading loop in
  progress (runner object 0), and \<open>runAgentLoop\<close> for \<open>a1\<close> creates a second runner, replaces
  the entry, runs its three transfers and deletes the entry, while the first runner is still
  running and can no longer be found under its id.
\<close>

theorem runAgentLoop_while_running:
  "isRunning worldC ''a1'' \<and>
   fst (runAgentLoop settingsA (\<lambda>i. steady) worldC ''a1''
          \<lparr>iterations' = Some 3, intervalMs' = Some 0, to' = [9], sol' = 1/100,
           holdProbability' = Some 0\<rparr>) = Inr [''sent'', ''sent'', ''sent''] \<and>
   objects (snd (runAgentLoop settingsA (\<lambda>i. steady) worldC ''a1''
          \<lparr>iterations' = Some 3, intervalMs' = Some 0, to' = [9], sol' = 1/100,
           holdProbability' = Some 0\<rparr>)) = [TradingAgent True, SimpleAgentRunner] \<and>
   running (objects (snd (runAgentLoop settingsA (\<lambda>i. steady) worldC ''a1''
          \<lparr>iterations' = Some 3, intervalMs' = Some 0, to' = [9], sol' = 1/100,
           holdProbability' = Some 0\<rparr>)) ! 0) \<and>
   \<not> isRunning (snd (runAgentLoop settingsA (\<lambda>i. steady) worldC ''a1''
          \<lparr>iterations' = Some 3, intervalMs' = Some 0, to' = [9], sol' = 1/100,
           holdProbability' = Some 0\<rparr>)) ''a1''"
  by (simp add: worldC_def world_evaluation runSolTransferLoop.simps loop_evaluation
      isRunning_def running_def)

end
